theory Spec2Isabelle
  imports Main
begin

section \<open>Strings\<close>

text \<open>
  JavaScript strings are modelled as \<^typ>\<open>string\<close>: a character of the model is a code
  unit below 256 (ASCII and the Latin-1 supplement), and white space, HTML escaping
  and URI encoding are defined on these code units as JavaScript defines them. Only
  the section on highlighting works on all UTF-16 code units. A string is truthy when
  it is not empty, and \<open>a || b\<close> on strings is \<open>js_or\<close>.
\<close>

definition truthy :: "string \<Rightarrow> bool" where
  "truthy v = (v \<noteq> [])"

definition js_or :: "string \<Rightarrow> string \<Rightarrow> string" where
  "js_or a b = (if truthy a then a else b)"

text \<open>\<open>escapeHtml\<close>: the text is assigned to \<open>textContent\<close> and read back as \<open>innerHTML\<close>,
  which writes the four characters below (the last is the no-break space) as
  entities.\<close>

definition escapeChar :: "char \<Rightarrow> string" where
  "escapeChar c =
     (if c = CHR ''&'' then ''&amp;''
      else if c = CHR ''<'' then ''&lt;''
      else if c = CHR ''>'' then ''&gt;''
      else if c = CHR 0xA0 then ''&nbsp;''
      else [c])"

definition escapeHtml :: "string \<Rightarrow> string" where
  "escapeHtml t = concat (map escapeChar t)"

text \<open>\<open>Array.prototype.join\<close> on an array of strings.\<close>

fun join :: "string \<Rightarrow> string list \<Rightarrow> string" where
  "join sep [] = []"
| "join sep [x] = x"
| "join sep (x # y # ys) = x @ sep @ join sep (y # ys)"

text \<open>The decimal numeral of a number, as a template literal prints a length.\<close>

definition digit_char :: "nat \<Rightarrow> char" where
  "digit_char d = ''0123456789'' ! d"

function decimal :: "nat \<Rightarrow> string" where
  "decimal n = (if n < 10 then [digit_char n] else decimal (n div 10) @ [digit_char (n mod 10)])"
  by pat_completeness auto
termination
  by (relation "measure id") auto

declare decimal.simps [simp del]

section \<open>Application state\<close>

datatype toast_type = Info | Success | Warning | Error

record toast =
  kind :: toast_type
  message :: string
  duration :: nat

text \<open>
  A prescription card of the page: \<open>node\<close> is the identity of the DOM element,
  \<open>data_index\<close> its \<open>data-index\<close> attribute. A herb tag is the \<open>span.herb-tag\<close> element
  with its \<open>data-herb\<close> attribute and the escaped text it shows.
\<close>

record card =
  node :: nat
  data_index :: nat

record tag =
  data_herb :: string
  tag_text :: string

text \<open>
  A suggestion as the suggestion endpoints send it: a plain string (a disease) or an
  object with the fields \<open>english\<close> and \<open>korean\<close> (a herb). The source tells them apart
  with \<open>typeof s === 'object'\<close>.
\<close>

datatype suggestion = Plain string | Paired string string

text \<open>
  The global \<open>state\<close> object, the cache \<open>herbKoreanCache\<close>, and the part of the document
  the functions read and write: the cards of \<open>prescriptionsContainer\<close> in document
  order, the herb tags of each tags container, the placeholder of the input inside
  each container, the suggestions each dropdown shows (one \<open>.suggestion-item\<close> per
  suggestion, in order; empty when the dropdown is hidden and cleared), and the toasts
  on the page. The tags container, the input and the dropdown of a card are keyed by
  one node. \<open>next_node\<close> is the identity the next created card receives. Keyboard
  focus, the text of the inputs, styles and timers are not part of the model. A
  handler is a function of the state and of the constants of its closure, which keep
  the values they had when the listener was registered; an asynchronous function is
  modelled as running to completion.
\<close>

record state =
  prescriptions :: "nat \<rightharpoonup> string list"
  prescriptionCount :: nat
  maxPrescriptions :: nat
  activeDropdown :: "nat option"
  selectedIndex :: int
  herbKoreanCache :: "string \<rightharpoonup> string"
  cards :: "card list"
  next_node :: nat
  tags :: "nat \<Rightarrow> tag list"
  placeholder :: "nat \<Rightarrow> string"
  dropdown :: "nat \<Rightarrow> suggestion list"
  toasts :: "toast list"

text \<open>\<open>state.prescriptions[i] || []\<close>\<close>

definition herbs_of :: "state \<Rightarrow> nat \<Rightarrow> string list" where
  "herbs_of s i = (case prescriptions s i of None \<Rightarrow> [] | Some herbs \<Rightarrow> herbs)"

text \<open>\<open>showToast\<close> removes the toasts of the same type, then appends the new one.\<close>

definition showToast :: "string \<Rightarrow> toast_type \<Rightarrow> nat \<Rightarrow> state \<Rightarrow> state" where
  "showToast msg ty dur s =
     s\<lparr>toasts := filter (\<lambda>t. kind t \<noteq> ty) (toasts s)
                    @ [\<lparr>kind = ty, message = msg, duration = dur\<rparr>]\<rparr>"

section \<open>The validation service and the Korean-name cache\<close>

text \<open>
  The reply of \<open>GET /api/herbs/validate?name=...\<close>. The source reads the fields
  \<open>english\<close>, \<open>name\<close> and \<open>korean\<close> only through \<open>||\<close> and \<open>if\<close>, where a field the reply
  leaves out behaves as the empty string, so an absent field is \<open>''''\<close> here. The
  service is a function from the requested name to its reply; \<open>None\<close> is a request
  that fails (the fetch or the JSON parse rejects). The object \<open>herbKoreanCache\<close> is read
  as a map from names to Korean names; the property names of \<open>Object.prototype\<close> are
  not herb names.
\<close>

record validate_reply =
  valid :: bool
  english :: string
  name :: string
  korean :: string

type_synonym validate_service = "string \<Rightarrow> validate_reply option"

record herb =
  herb_english :: string
  herb_korean :: string

definition getKoreanName :: "validate_service \<Rightarrow> string \<Rightarrow> state \<Rightarrow> string \<times> state" where
  "getKoreanName svc englishName s =
     (case herbKoreanCache s englishName of
        Some k \<Rightarrow> (k, s)
      | None \<Rightarrow>
          (case svc englishName of
             None \<Rightarrow> ([], s)
           | Some data \<Rightarrow>
               (js_or (korean data) [],
                s\<lparr>herbKoreanCache := (herbKoreanCache s)(englishName \<mapsto> js_or (korean data) [])\<rparr>)))"

definition validateHerb :: "validate_service \<Rightarrow> string \<Rightarrow> state \<Rightarrow> herb option \<times> state" where
  "validateHerb svc herbName s =
     (case svc herbName of
        None \<Rightarrow> (None, s)
      | Some data \<Rightarrow>
          if valid data then
            (Some \<lparr>herb_english = js_or (english data) (name data),
                   herb_korean = js_or (korean data) []\<rparr>,
             if truthy (korean data)
             then s\<lparr>herbKoreanCache :=
                      (herbKoreanCache s)(js_or (english data) (name data) \<mapsto> korean data)\<rparr>
             else s)
          else (None, s))"

section \<open>Herb tags of one prescription\<close>

definition updatePlaceholder :: "nat \<Rightarrow> nat \<Rightarrow> state \<Rightarrow> state" where
  "updatePlaceholder prescriptionIndex input s =
     s\<lparr>placeholder := (placeholder s)
          (input := (if length (herbs_of s prescriptionIndex) > 0
                     then ''Add more herbs...''
                     else ''Type herb name or paste list...''))\<rparr>"

text \<open>
  \<open>addHerbTagInline\<close>. At every call site the argument \<open>input\<close> is the input inside
  \<open>tagsContainer\<close>, and the model keys both by the container's node. \<open>koreanName\<close> is
  \<open>None\<close> for \<open>null\<close> or a missing argument. The tag is inserted before the input, that
  is after the tags already there.
\<close>

definition addHerbTagInline ::
  "validate_service \<Rightarrow> nat \<Rightarrow> string \<Rightarrow> nat \<Rightarrow> string option \<Rightarrow> state \<Rightarrow> state" where
  "addHerbTagInline svc prescriptionIndex herbName tagsContainer koreanName s =
     (let s0 = (if prescriptions s prescriptionIndex = None
                then s\<lparr>prescriptions := (prescriptions s)(prescriptionIndex \<mapsto> [])\<rparr>
                else s)
      in if herbName \<in> set (herbs_of s0 prescriptionIndex) then s0
         else
           let s1 = s0\<lparr>prescriptions := (prescriptions s0)
                         (prescriptionIndex \<mapsto> herbs_of s0 prescriptionIndex @ [herbName])\<rparr>;
               (kn, s2) = (case koreanName of
                             None \<Rightarrow> getKoreanName svc herbName s1
                           | Some k \<Rightarrow> (k, s1));
               displayName = (if truthy kn then kn @ '' ('' @ herbName @ '')'' else herbName);
               s3 = s2\<lparr>tags := (tags s2)
                         (tagsContainer := tags s2 tagsContainer
                            @ [\<lparr>data_herb = herbName, tag_text = escapeHtml displayName\<rparr>])\<rparr>
           in updatePlaceholder prescriptionIndex tagsContainer s3)"

section \<open>Bulk paste\<close>

text \<open>The paste handler splits the text at commas, trims each piece and drops the
  empty ones; \<open>addBulkHerbs\<close> receives the resulting names.\<close>

text \<open>First loop of \<open>addBulkHerbs\<close>: each name is validated and pushed onto exactly one
  of \<open>validHerbs\<close>, \<open>invalidHerbs\<close>, \<open>duplicateHerbs\<close>.\<close>

fun classify ::
  "validate_service \<Rightarrow> nat \<Rightarrow> string list \<Rightarrow> herb list \<times> string list \<times> string list \<times> state
     \<Rightarrow> herb list \<times> string list \<times> string list \<times> state" where
  "classify svc prescriptionIndex [] acc = acc"
| "classify svc prescriptionIndex (h # hs) (validHerbs, invalidHerbs, duplicateHerbs, s) =
     (case validateHerb svc h s of
        (Some validated, s') \<Rightarrow>
          (if (case prescriptions s' prescriptionIndex of
                 None \<Rightarrow> False
               | Some herbs \<Rightarrow> herb_english validated \<in> set herbs)
           then classify svc prescriptionIndex hs
                  (validHerbs, invalidHerbs, duplicateHerbs @ [h], s')
           else classify svc prescriptionIndex hs
                  (validHerbs @ [validated], invalidHerbs, duplicateHerbs, s'))
      | (None, s') \<Rightarrow>
          classify svc prescriptionIndex hs
            (validHerbs, invalidHerbs @ [h], duplicateHerbs, s'))"

text \<open>Second loop: every element of \<open>validHerbs\<close> is handed to \<open>addHerbTagInline\<close> with
  the Korean name the validation returned.\<close>

fun addValid :: "validate_service \<Rightarrow> nat \<Rightarrow> nat \<Rightarrow> herb list \<Rightarrow> state \<Rightarrow> state" where
  "addValid svc prescriptionIndex tagsContainer [] s = s"
| "addValid svc prescriptionIndex tagsContainer (herbData # rest) s =
     addValid svc prescriptionIndex tagsContainer rest
       (addHerbTagInline svc prescriptionIndex (herb_english herbData) tagsContainer
          (Some (herb_korean herbData)) s)"

definition addBulkHerbs ::
  "validate_service \<Rightarrow> nat \<Rightarrow> string list \<Rightarrow> nat \<Rightarrow> state \<Rightarrow> state" where
  "addBulkHerbs svc prescriptionIndex herbs tagsContainer s =
     (let s1 = showToast ''Validating herbs...'' Info 3000 s;
          (validHerbs, invalidHerbs, duplicateHerbs, s2) =
             classify svc prescriptionIndex herbs ([], [], [], s1);
          s3 = addValid svc prescriptionIndex tagsContainer validHerbs s2;
          s4 = (if length validHerbs > 0
                then showToast (''Added '' @ decimal (length validHerbs) @ '' herb''
                                 @ (if length validHerbs > 1 then ''s'' else [])
                                 @ '' successfully'') Success 3000 s3
                else s3);
          s5 = (if length invalidHerbs > 0
                then showToast (''Not found in database: '' @ join '', '' invalidHerbs) Error 5000 s4
                else s4)
      in if length duplicateHerbs > 0
         then showToast (''Already added: '' @ join '', '' duplicateHerbs) Warning 3000 s5
         else s5)"

section \<open>Removing a herb tag\<close>

text \<open>
  A function of the source that raises part of the way through returns the error
  together with the state at that moment; \<open>None\<close> is normal completion.
\<close>

datatype js_error = TypeError | SyntaxError

definition dquote :: char where
  "dquote = CHR 0x22"

text \<open>
  \<open>Element.querySelector\<close> over the herb tags of a container is the browser's; the model
  takes it as the parameter \<open>qs\<close>: given the selector text and the tags in document
  order it raises, finds nothing (\<open>null\<close>), or gives the position of the tag found.
\<close>

type_synonym query_selector = "string \<Rightarrow> tag list \<Rightarrow> js_error + nat option"

definition herb_tag_selector :: "string \<Rightarrow> string" where
  "herb_tag_selector herbName = ''.herb-tag[data-herb='' @ [dquote] @ herbName @ [dquote] @ '']''"

definition remove_at :: "nat \<Rightarrow> 'a list \<Rightarrow> 'a list" where
  "remove_at i xs = take i xs @ drop (Suc i) xs"

definition removeHerbTagInline ::
  "query_selector \<Rightarrow> nat \<Rightarrow> string \<Rightarrow> nat \<Rightarrow> state \<Rightarrow> js_error option \<times> state" where
  "removeHerbTagInline qs prescriptionIndex herbName tagsContainer s =
     (case prescriptions s prescriptionIndex of
        None \<Rightarrow> (Some TypeError, s)
      | Some herbs \<Rightarrow>
          let s1 = s\<lparr>prescriptions := (prescriptions s)
                        (prescriptionIndex \<mapsto> filter (\<lambda>h. h \<noteq> herbName) herbs)\<rparr>
          in (case qs (herb_tag_selector herbName) (tags s1 tagsContainer) of
                Inl e \<Rightarrow> (Some e, s1)
              | Inr None \<Rightarrow> (None, updatePlaceholder prescriptionIndex tagsContainer s1)
              | Inr (Some i) \<Rightarrow>
                  (None, updatePlaceholder prescriptionIndex tagsContainer
                           (s1\<lparr>tags := (tags s1)
                                 (tagsContainer := remove_at i (tags s1 tagsContainer))\<rparr>))))"

text \<open>
  The \<open>keydown\<close> handler of a herb input for the key Backspace; \<open>inputValue\<close> is the text
  of the input. With text in the input the event goes on to
  \<open>handleKeyboardNavigation\<close>, which has no branch for Backspace. \<open>prescriptionIndex\<close> and
  \<open>tagsContainer\<close> are the constants of \<open>setupHerbAutocomplete\<close>: the first is
  \<open>parseInt(input.dataset.index)\<close> as read once, when the listeners of the input were
  registered.
\<close>

definition herbKeydownBackspace ::
  "query_selector \<Rightarrow> nat \<Rightarrow> nat \<Rightarrow> string \<Rightarrow> state \<Rightarrow> js_error option \<times> state" where
  "herbKeydownBackspace qs prescriptionIndex tagsContainer inputValue s =
     (if inputValue = [] then
        (case prescriptions s prescriptionIndex of
           None \<Rightarrow> (None, s)
         | Some herbs \<Rightarrow>
             if length herbs > 0
             then removeHerbTagInline qs prescriptionIndex (last herbs) tagsContainer s
             else (None, s))
      else (None, s))"

section \<open>Prescriptions\<close>

text \<open>
  \<open>addPrescription\<close>. The new card is appended to \<open>prescriptionsContainer\<close>; its tags
  container holds only the input, whose placeholder is the one of the card's markup.
\<close>

definition addPrescription :: "state \<Rightarrow> state" where
  "addPrescription s =
     (if prescriptionCount s \<ge> maxPrescriptions s
      then showToast ''Maximum 3 prescriptions allowed'' Warning 3000 s
      else
        let index = prescriptionCount s + 1
        in s\<lparr>prescriptionCount := index,
              prescriptions := (prescriptions s)(index \<mapsto> []),
              cards := cards s @ [\<lparr>node = next_node s, data_index = index\<rparr>],
              next_node := next_node s + 1,
              tags := (tags s)(next_node s := []),
              placeholder := (placeholder s)(next_node s := ''Type herb name...'')\<rparr>)"

text \<open>
  \<open>renumberPrescriptions\<close>: the \<open>forEach\<close> over the cards in document order, \<open>i\<close> counting
  from 0. \<open>renumber_map\<close> builds \<open>newPrescriptions\<close> from the old object, \<open>renumber_cards\<close>
  rewrites the \<open>data-index\<close> attributes.
\<close>

fun renumber_map ::
  "(nat \<rightharpoonup> string list) \<Rightarrow> card list \<Rightarrow> nat \<Rightarrow> (nat \<rightharpoonup> string list) \<Rightarrow> (nat \<rightharpoonup> string list)" where
  "renumber_map old [] i newPrescriptions = newPrescriptions"
| "renumber_map old (c # cs) i newPrescriptions =
     renumber_map old cs (i + 1)
       (newPrescriptions(i + 1 \<mapsto> (case old (data_index c) of None \<Rightarrow> [] | Some herbs \<Rightarrow> herbs)))"

fun renumber_cards :: "card list \<Rightarrow> nat \<Rightarrow> card list" where
  "renumber_cards [] i = []"
| "renumber_cards (c # cs) i = c\<lparr>data_index := i + 1\<rparr> # renumber_cards cs (i + 1)"

definition renumberPrescriptions :: "state \<Rightarrow> state" where
  "renumberPrescriptions s =
     s\<lparr>prescriptions := renumber_map (prescriptions s) (cards s) 0 Map.empty,
        cards := renumber_cards (cards s) 0,
        prescriptionCount := length (cards s)\<rparr>"

text \<open>
  \<open>removePrescription(index, element)\<close>; \<open>element\<close> is the node of a card. The click
  listener that \<open>addPrescription\<close> gives the remove button of a new card calls
  \<open>removePrescription(index, prescriptionCard)\<close> with the \<open>index\<close> of the card's creation.
\<close>

definition removePrescription :: "nat \<Rightarrow> nat \<Rightarrow> state \<Rightarrow> state" where
  "removePrescription index element s =
     (if prescriptionCount s \<le> 1
      then showToast ''At least one prescription is required'' Warning 3000 s
      else renumberPrescriptions
             (s\<lparr>prescriptions := (prescriptions s)(index := None),
                cards := filter (\<lambda>c. node c \<noteq> element) (cards s),
                prescriptionCount := prescriptionCount s - 1\<rparr>))"

section \<open>Form submission\<close>

text \<open>\<open>String.prototype.trim\<close> removes white space and line terminators from both ends:
  tab, line feed, vertical tab, form feed, carriage return, space and no-break
  space.\<close>

definition is_space :: "char \<Rightarrow> bool" where
  "is_space c = (c \<in> {CHR 0x09, CHR 0x0A, CHR 0x0B, CHR 0x0C, CHR 0x0D, CHR '' '', CHR 0xA0})"

definition trim :: "string \<Rightarrow> string" where
  "trim t = rev (dropWhile is_space (rev (dropWhile is_space t)))"

text \<open>The loop of \<open>handleFormSubmit\<close> over \<open>i = 1 .. prescriptionCount\<close>, with its two
  variables \<open>herbsData\<close> and \<open>hasHerbs\<close>.\<close>

fun collect_herbs :: "state \<Rightarrow> nat list \<Rightarrow> string list \<times> bool \<Rightarrow> string list \<times> bool" where
  "collect_herbs s [] acc = acc"
| "collect_herbs s (i # is) (herbsData, hasHerbs) =
     (if length (herbs_of s i) > 0
      then collect_herbs s is (herbsData @ [join '', '' (herbs_of s i)], True)
      else collect_herbs s is (herbsData, hasHerbs))"

text \<open>
  \<open>handleFormSubmit\<close>; \<open>diseaseValue\<close> is the text of the disease input. The result is
  \<open>Some herbsData\<close> when the form is submitted, \<open>herbsData\<close> being the array that is
  passed to \<open>JSON.stringify\<close> for the hidden field, and \<open>None\<close> when the handler
  returns early.
\<close>

definition handleFormSubmit :: "string \<Rightarrow> state \<Rightarrow> string list option \<times> state" where
  "handleFormSubmit diseaseValue s =
     (if \<not> truthy (trim diseaseValue)
      then (None, showToast ''Please enter a disease name'' Error 3000 s)
      else
        let (herbsData, hasHerbs) = collect_herbs s [1 ..< prescriptionCount s + 1] ([], False)
        in if \<not> hasHerbs
           then (None, showToast ''Please add at least one herb to a prescription'' Error 3000 s)
           else (Some herbsData, s))"

section \<open>Suggestions\<close>

text \<open>
  \<open>encodeURIComponent\<close> leaves letters, digits and \<open>- _ . ! ~ * ' ( )\<close> as they are and
  writes every byte of the UTF-8 encoding of any other character as \<open>%\<close> and two
  upper-case hexadecimal digits; a code unit from 128 to 255 has two bytes.
\<close>

definition uri_unreserved :: "char \<Rightarrow> bool" where
  "uri_unreserved c =
     (c \<in> set ''ABCDEFGHIJKLMNOPQRSTUVWXYZabcdefghijklmnopqrstuvwxyz0123456789-_.!~*()''
      \<or> c = CHR 0x27)"

definition hex_digit :: "nat \<Rightarrow> char" where
  "hex_digit d = ''0123456789ABCDEF'' ! d"

definition percent_byte :: "nat \<Rightarrow> string" where
  "percent_byte b = [CHR ''%'', hex_digit (b div 16), hex_digit (b mod 16)]"

definition encodeURIChar :: "char \<Rightarrow> string" where
  "encodeURIChar c =
     (if uri_unreserved c then [c]
      else if (of_char c :: nat) < 128 then percent_byte (of_char c)
      else percent_byte (192 + of_char c div 64) @ percent_byte (128 + of_char c mod 64))"

definition encodeURIComponent :: "string \<Rightarrow> string" where
  "encodeURIComponent t = concat (map encodeURIChar t)"

text \<open>
  What a request can end in: the fetch rejects, \<open>response.json()\<close> rejects, or the body
  parses. The network is a function from the URL to that outcome; the parsed body of a
  suggestion endpoint is a list (section 6 of the spec).
\<close>

datatype fetch_error = NetworkError | JsonParseError

type_synonym 'a network = "string \<Rightarrow> fetch_error + 'a list"

text \<open>
  \<open>fetchSuggestions\<close>: the body of the \<open>try\<close> block, then the function with its \<open>catch\<close>.
  The result is what the caller's \<open>await\<close> receives, \<open>Inl\<close> for an error thrown to the
  caller and \<open>Inr\<close> for a value, together with the errors written to the console.
\<close>

definition fetchSuggestions_try :: "'a network \<Rightarrow> string \<Rightarrow> string \<Rightarrow> fetch_error + 'a list" where
  "fetchSuggestions_try net endpoint query = net (endpoint @ ''?q='' @ encodeURIComponent query)"

definition fetchSuggestions ::
  "'a network \<Rightarrow> string \<Rightarrow> string \<Rightarrow> (fetch_error + 'a list) \<times> fetch_error list" where
  "fetchSuggestions net endpoint query =
     (case fetchSuggestions_try net endpoint query of
        Inr suggestions \<Rightarrow> (Inr suggestions, [])
      | Inl e \<Rightarrow> (Inr [], [e]))"

definition hideSuggestions :: "nat \<Rightarrow> state \<Rightarrow> state" where
  "hideSuggestions container s = s\<lparr>dropdown := (dropdown s)(container := []), selectedIndex := - 1\<rparr>"

definition isHerbSuggestion :: "suggestion list \<Rightarrow> bool" where
  "isHerbSuggestion suggestions =
     (case suggestions of Paired e k # rest \<Rightarrow> truthy e | _ \<Rightarrow> False)"

fun is_Plain :: "suggestion \<Rightarrow> bool" where
  "is_Plain (Plain v) = True"
| "is_Plain (Paired e k) = False"

text \<open>
  \<open>showSuggestionsWithKeyboard\<close>. With a truthy query every item's text goes through
  \<open>text.split\<close> in \<open>highlightMatch\<close>, which raises a \<open>TypeError\<close> when the herb branch
  meets a string (its \<open>english\<close> is \<open>undefined\<close>) or the plain branch meets an object;
  \<open>selectedIndex\<close> is already 0 then and the dropdown is left as it was.
\<close>

definition showSuggestionsWithKeyboard ::
  "nat \<Rightarrow> suggestion list \<Rightarrow> string \<Rightarrow> state \<Rightarrow> js_error option \<times> state" where
  "showSuggestionsWithKeyboard container suggestions query s =
     (if length suggestions = 0 then (None, hideSuggestions container s)
      else
        let s1 = s\<lparr>selectedIndex := 0\<rparr>
        in if truthy query
              \<and> (if isHerbSuggestion suggestions
                  then list_ex is_Plain suggestions
                  else list_ex (\<lambda>x. \<not> is_Plain x) suggestions)
           then (Some TypeError, s1)
           else (None, s1\<lparr>dropdown := (dropdown s1)(container := suggestions)\<rparr>))"

fun englishName_of :: "suggestion \<Rightarrow> string" where
  "englishName_of (Paired e k) = e"
| "englishName_of (Plain v) = v"

text \<open>
  The \<open>input\<close> handler of a herb input, the debounce timer having fired: \<open>inputValue\<close> is
  the text of the input, \<open>container\<close> the node of its card, \<open>prescriptionIndex\<close> the
  constant of \<open>setupHerbAutocomplete\<close>.
\<close>

definition herbInput ::
  "suggestion network \<Rightarrow> nat \<Rightarrow> nat \<Rightarrow> string \<Rightarrow> state \<Rightarrow> js_error option \<times> state" where
  "herbInput net prescriptionIndex container inputValue s =
     (let query = trim inputValue;
          s0 = s\<lparr>selectedIndex := - 1\<rparr>
      in if length query < 1 then (None, hideSuggestions container s0)
         else
           (case fst (fetchSuggestions net ''/api/herbs'' query) of
              Inl e \<Rightarrow> (None, s0)
            | Inr suggestions \<Rightarrow>
                let selectedHerbs = herbs_of s0 prescriptionIndex;
                    filtered = filter (\<lambda>x. englishName_of x \<notin> set selectedHerbs) suggestions
                in showSuggestionsWithKeyboard container filtered query
                     (s0\<lparr>activeDropdown := Some container\<rparr>)))"

text \<open>
  The selection callbacks of a herb input (click and Enter). Both read \<open>data-korean\<close> of
  the chosen item into the variable \<open>korean\<close>, which is the argument \<open>koreanAttr\<close> here:
  \<open>None\<close> when no item is found or the item has no such attribute.
\<close>

definition herbSelected ::
  "validate_service \<Rightarrow> nat \<Rightarrow> string \<Rightarrow> nat \<Rightarrow> string option \<Rightarrow> state \<Rightarrow> state" where
  "herbSelected svc prescriptionIndex v container koreanAttr s =
     (let s1 = (case koreanAttr of
                  None \<Rightarrow> s
                | Some k \<Rightarrow> if truthy k
                            then s\<lparr>herbKoreanCache := (herbKoreanCache s)(v \<mapsto> k)\<rparr>
                            else s)
      in hideSuggestions container
           (addHerbTagInline svc prescriptionIndex v container koreanAttr s1))"

section \<open>Highlighting\<close>

text \<open>
  \<open>highlightMatch\<close> receives the text of a suggestion and the query as the server and
  the user give them: strings over all UTF-16 code units, the Korean names of the
  herbs among them. In this section a string is the list of its code units and a code
  unit is the number it stands for; \<open>units\<close> gives the code units of a string of the
  sections above.
\<close>

definition units :: "string \<Rightarrow> nat list" where
  "units t = map of_char t"

text \<open>\<open>escapeHtml\<close> on code units: the ampersand 38, the angle brackets 60 and 62 and the
  no-break space 160 are written as entities, as in \<open>escapeChar\<close>.\<close>

definition escapeUnit :: "nat \<Rightarrow> nat list" where
  "escapeUnit u =
     (if u = 38 then units ''&amp;''
      else if u = 60 then units ''&lt;''
      else if u = 62 then units ''&gt;''
      else if u = 160 then units ''&nbsp;''
      else [u])"

definition escapeHtml_units :: "nat list \<Rightarrow> nat list" where
  "escapeHtml_units t = concat (map escapeUnit t)"

text \<open>
  \<open>highlightMatch\<close> escapes the query with
  \<open>query.replace(/[.*+?^${}()|[\]\\]/g, '\\$&')\<close>, builds \<open>new RegExp('(' + escapedQuery + ')', 'gi')\<close>
  and splits the text with it. \<open>regex_special\<close> is the character class of the
  replacement, \<open>escapeRegex\<close> the replacement.
\<close>

definition backslash :: nat where
  "backslash = 92"

definition regex_special :: "nat \<Rightarrow> bool" where
  "regex_special u = (u \<in> set (units ''.*+?^${}()|[]'') \<or> u = backslash)"

definition escapeRegex :: "nat list \<Rightarrow> nat list" where
  "escapeRegex query = concat (map (\<lambda>u. if regex_special u then [backslash, u] else [u]) query)"

text \<open>
  The regular expressions the model reads: a group around a sequence of code units,
  each a code unit without a meaning of its own or a backslash followed by one of the
  special characters, which stands for that character. \<open>group_literal\<close> gives the
  sequence such a pattern matches, and \<open>None\<close> for any other pattern. The parentheses
  are the code units 40 and 41.
\<close>

fun pattern_atoms :: "nat list \<Rightarrow> nat list option" where
  "pattern_atoms [] = Some []"
| "pattern_atoms (c # cs) =
     (if c = backslash then
        (case cs of
           [] \<Rightarrow> None
         | d # ds \<Rightarrow> if regex_special d then map_option ((#) d) (pattern_atoms ds) else None)
      else if regex_special c then None
      else map_option ((#) c) (pattern_atoms cs))"

definition group_literal :: "nat list \<Rightarrow> nat list option" where
  "group_literal pattern =
     (case pattern of
        [] \<Rightarrow> None
      | c # rest \<Rightarrow>
          if c = 40 \<and> rest \<noteq> [] \<and> last rest = 41
          then pattern_atoms (butlast rest) else None)"

text \<open>
  The case mappings are the Unicode tables of the runtime, which are not part of the
  source; \<open>highlightMatch\<close> takes them as the parameter \<open>rt\<close>. \<open>toLowerCase\<close> is
  \<open>String.prototype.toLowerCase\<close>, a function of the whole string. \<open>canonicalize\<close> is
  the canonical form under which a regular expression with the flag \<open>i\<close> (and without
  \<open>u\<close>) compares two code units: the code unit of the character's upper case when
  that is a single code unit, and the code unit itself otherwise.
\<close>

record case_tables =
  toLowerCase :: "nat list \<Rightarrow> nat list"
  canonicalize :: "nat \<Rightarrow> nat"

text \<open>
  \<open>text.split(regex)\<close> for a regular expression with one group around a non-empty
  literal: \<open>matches_at\<close> is a match that starts at the current position, \<open>seg\<close> the
  piece of text collected since the last match. Each match closes the piece before
  it, and the text of the group follows the piece in the result. For the empty
  literal, which \<open>highlightMatch\<close> never builds, no match is taken.
\<close>

definition matches_at :: "case_tables \<Rightarrow> nat list \<Rightarrow> nat list \<Rightarrow> bool" where
  "matches_at rt lit rest =
     (map (canonicalize rt) (take (length lit) rest) = map (canonicalize rt) lit)"

function regex_split :: "case_tables \<Rightarrow> nat list \<Rightarrow> nat list \<Rightarrow> nat list \<Rightarrow> nat list list" where
  "regex_split rt lit seg [] = [seg]"
| "regex_split rt lit seg (c # cs) =
     (if lit \<noteq> [] \<and> matches_at rt lit (c # cs)
      then seg # take (length lit) (c # cs) # regex_split rt lit [] (drop (length lit) (c # cs))
      else regex_split rt lit (seg @ [c]) cs)"
  by pat_completeness auto
termination
  by (relation "measure (\<lambda>(rt, lit, seg, rest). length rest)") auto

text \<open>\<open>highlightMatch\<close>; \<open>parts.map(...).join('')\<close> is \<open>concat (map ...)\<close>, and the quotation
  mark is the code unit 34. The result is \<open>None\<close> when the pattern is not one
  \<open>group_literal\<close> reads.\<close>

definition highlight_mark :: "nat list \<Rightarrow> nat list" where
  "highlight_mark part =
     units ''<mark class='' @ [34] @ units ''highlight'' @ [34] @ units ''>''
       @ escapeHtml_units part @ units ''</mark>''"

definition highlightMatch :: "case_tables \<Rightarrow> nat list \<Rightarrow> nat list \<Rightarrow> nat list option" where
  "highlightMatch rt t query =
     (if query = [] then Some (escapeHtml_units t)
      else
        (case group_literal ([40] @ escapeRegex query @ [41]) of
           None \<Rightarrow> None
         | Some lit \<Rightarrow>
             Some (concat (map (\<lambda>part. if toLowerCase rt part = toLowerCase rt query
                                        then highlight_mark part
                                        else escapeHtml_units part)
                             (regex_split rt lit [] t)))))"

text \<open>
  The highlighting as the specification words it: reading the text from the left,
  every case-insensitive occurrence of the query is wrapped in the highlight marker
  (its text escaped), and every other code unit is escaped. An occurrence is a piece
  of the text of the query's length with the query's lower case.
\<close>

definition occurs_at :: "case_tables \<Rightarrow> nat list \<Rightarrow> nat list \<Rightarrow> bool" where
  "occurs_at rt query rest =
     (length query \<le> length rest
      \<and> toLowerCase rt (take (length query) rest) = toLowerCase rt query)"

function highlight_spec :: "case_tables \<Rightarrow> nat list \<Rightarrow> nat list \<Rightarrow> nat list" where
  "highlight_spec rt query [] = []"
| "highlight_spec rt query (c # cs) =
     (if query \<noteq> [] \<and> occurs_at rt query (c # cs)
      then highlight_mark (take (length query) (c # cs))
             @ highlight_spec rt query (drop (length query) (c # cs))
      else escapeUnit c @ highlight_spec rt query cs)"
  by pat_completeness auto
termination
  by (relation "measure (\<lambda>(rt, query, rest). length rest)") auto

text \<open>
  The values of the Unicode tables on the code units below 256, on the two small
  sigmas U+03C2 (final) and U+03C3, and on the Kelvin sign U+212A. In lower case the
  letters A to Z and the capital letters of the Latin-1 supplement (192 to 222 without
  the multiplication sign 215) move up by 32 and the Kelvin sign becomes the letter k
  (U+006B); the small sigmas stay. In canonical form the small letters (97 to 122, 224
  to 254 without the division sign 247) move down by 32, the micro sign 181 and the
  letter 255 go to their capitals 924 and 376, both small sigmas go to the capital
  sigma U+03A3, and the sharp s 223 (its upper case is two letters) and the Kelvin
  sign (a capital letter) stay. \<open>unicode_sample\<close> leaves every other code unit as it is:
  it gives the runtime's values on the strings of the code units named here.
\<close>

definition sample_lower :: "nat \<Rightarrow> nat" where
  "sample_lower x =
     (if (65 \<le> x \<and> x \<le> 90) \<or> (192 \<le> x \<and> x \<le> 214) \<or> (216 \<le> x \<and> x \<le> 222)
      then x + 32
      else if x = 0x212A then 0x6B
      else x)"

definition sample_canonicalize :: "nat \<Rightarrow> nat" where
  "sample_canonicalize x =
     (if (97 \<le> x \<and> x \<le> 122) \<or> (224 \<le> x \<and> x \<le> 246) \<or> (248 \<le> x \<and> x \<le> 254)
      then x - 32
      else if x = 181 then 924
      else if x = 255 then 376
      else if x = 0x3C2 \<or> x = 0x3C3 then 0x3A3
      else x)"

definition unicode_sample :: case_tables where
  "unicode_sample = \<lparr>toLowerCase = map sample_lower, canonicalize = sample_canonicalize\<rparr>"

section \<open>Sequences of calls and invariants\<close>

text \<open>A sequence of \<open>addHerbTagInline\<close> calls on one prescription and its tags container,
  each call with its herb name and its \<open>koreanName\<close> argument.\<close>

fun addHerbTags ::
  "validate_service \<Rightarrow> nat \<Rightarrow> nat \<Rightarrow> (string \<times> string option) list \<Rightarrow> state \<Rightarrow> state" where
  "addHerbTags svc prescriptionIndex tagsContainer [] s = s"
| "addHerbTags svc prescriptionIndex tagsContainer ((herbName, koreanName) # calls) s =
     addHerbTags svc prescriptionIndex tagsContainer calls
       (addHerbTagInline svc prescriptionIndex herbName tagsContainer koreanName s)"

text \<open>The specification's reading of such a sequence: each distinct name once, in the
  order of its first occurrence.\<close>

fun first_occurrences :: "'a list \<Rightarrow> 'a list" where
  "first_occurrences [] = []"
| "first_occurrences (x # xs) = x # filter (\<lambda>y. y \<noteq> x) (first_occurrences xs)"

text \<open>
  The cards and the counter agree: the \<open>data-index\<close> attributes of the cards, in
  document order, are \<open>1, ..., prescriptionCount\<close>, and no node occurs twice.
\<close>

definition consistent :: "state \<Rightarrow> bool" where
  "consistent s =
     (map data_index (cards s) = [1 ..< prescriptionCount s + 1]
      \<and> distinct (map node (cards s)))"

text \<open>The cards that are left when the card with node \<open>element\<close> is removed.\<close>

definition survivors :: "nat \<Rightarrow> state \<Rightarrow> card list" where
  "survivors element s = filter (\<lambda>c. node c \<noteq> element) (cards s)"

text \<open>
  Calls of \<open>addPrescription\<close> and \<open>removePrescription\<close> in any order and with any
  arguments, and the invariant they keep: the counter is the number of cards on the
  page and lies between 1 and the maximum, the nodes of the cards are distinct and
  older than \<open>next_node\<close>.
\<close>

datatype registry_op = Add | Remove nat nat

fun run_op :: "registry_op \<Rightarrow> state \<Rightarrow> state" where
  "run_op Add s = addPrescription s"
| "run_op (Remove index element) s = removePrescription index element s"

fun run_ops :: "registry_op list \<Rightarrow> state \<Rightarrow> state" where
  "run_ops [] s = s"
| "run_ops (op # ops) s = run_ops ops (run_op op s)"

definition registry_ok :: "state \<Rightarrow> bool" where
  "registry_ok s =
     (prescriptionCount s = length (cards s)
      \<and> distinct (map node (cards s))
      \<and> list_all (\<lambda>c. node c < next_node s) (cards s)
      \<and> 1 \<le> prescriptionCount s
      \<and> prescriptionCount s \<le> maxPrescriptions s)"

section \<open>Example states and services\<close>

text \<open>
  Modelled from the spec: the markup of the page, which is not among the sources. The
  page starts with the two default prescriptions of section 3, here the cards with
  the nodes 0 and 1, each with an empty tags container and a hidden dropdown. The
  other fields are the literals of the source for \<open>state\<close> and \<open>herbKoreanCache\<close>.
\<close>

definition initial_state :: state where
  "initial_state =
     \<lparr>prescriptions = [1 \<mapsto> [], 2 \<mapsto> []],
      prescriptionCount = 2,
      maxPrescriptions = 2,
      activeDropdown = None,
      selectedIndex = - 1,
      herbKoreanCache = Map.empty,
      cards = [\<lparr>node = 0, data_index = 1\<rparr>, \<lparr>node = 1, data_index = 2\<rparr>],
      next_node = 2,
      tags = (\<lambda>n. []),
      placeholder = (\<lambda>n. ''Type herb name or paste list...''),
      dropdown = (\<lambda>n. []),
      toasts = []\<rparr>"

text \<open>A validation service that knows two herbs: Ginseng with a Korean name, Licorice
  without one. It rejects every other name.\<close>

definition herb_service :: validate_service where
  "herb_service n =
     (if n = ''Ginseng'' then Some \<lparr>valid = True, english = ''Ginseng'', name = [], korean = ''Insam''\<rparr>
      else if n = ''Licorice'' then Some \<lparr>valid = True, english = ''Licorice'', name = [], korean = []\<rparr>
      else Some \<lparr>valid = False, english = [], name = [], korean = []\<rparr>)"

text \<open>A \<open>querySelector\<close> for herb names without quotation marks or backslashes: it finds
  the first tag whose selector is the selector asked for.\<close>

fun first_match :: "('a \<Rightarrow> bool) \<Rightarrow> 'a list \<Rightarrow> nat option" where
  "first_match P [] = None"
| "first_match P (x # xs) = (if P x then Some 0 else map_option Suc (first_match P xs))"

definition example_querySelector :: query_selector where
  "example_querySelector sel ts = Inr (first_match (\<lambda>t. herb_tag_selector (data_herb t) = sel) ts)"

text \<open>The initial state after Ginseng and Licorice have been added to prescription 1,
  after Licorice has been added to prescription 2 only, and after the first card has
  been removed.\<close>

definition two_herbs_state :: state where
  "two_herbs_state =
     addHerbTags herb_service 1 0 [(''Ginseng'', None), (''Licorice'', None)] initial_state"

definition second_only_state :: state where
  "second_only_state = addHerbTagInline herb_service 2 ''Licorice'' 1 None initial_state"

definition single_card_state :: state where
  "single_card_state = removePrescription 1 0 initial_state"





text \<open>A network on which every request fails, and one whose herb endpoint answers the
  query \<open>gin\<close> with two herbs.\<close>

definition failing_network :: "suggestion network" where
  "failing_network url = Inl NetworkError"


section \<open>Facts about the herb list\<close>

lemma herbs_of_showToast [simp]: "herbs_of (showToast m ty d s) i = herbs_of s i"
  by (simp add: herbs_of_def showToast_def)

lemma herbs_of_cache_update [simp]: "herbs_of (s\<lparr>herbKoreanCache := m\<rparr>) i = herbs_of s i"
  by (simp add: herbs_of_def)

lemma herbs_of_initial: "herbs_of initial_state i = []"
  by (simp add: herbs_of_def initial_state_def)

lemma tags_initial: "tags initial_state c = []"
  by (simp add: initial_state_def)

lemma getKoreanName_frame:
  "prescriptions (snd (getKoreanName svc n s)) = prescriptions s
   \<and> tags (snd (getKoreanName svc n s)) = tags s
   \<and> placeholder (snd (getKoreanName svc n s)) = placeholder s"
  by (simp add: getKoreanName_def split: option.splits)

lemma addHerbTagInline_present:
  "herbName \<in> set (herbs_of s i) \<Longrightarrow> addHerbTagInline svc i herbName c kn s = s"
  by (auto simp: addHerbTagInline_def herbs_of_def Let_def split: option.splits)

lemma addHerbTagInline_new_given:
  "herbName \<notin> set (herbs_of s i) \<Longrightarrow>
   addHerbTagInline svc i herbName c (Some k) s =
     s\<lparr>prescriptions := (prescriptions s)(i \<mapsto> herbs_of s i @ [herbName]),
       tags := (tags s)(c := tags s c @ [\<lparr>data_herb = herbName,
                 tag_text = escapeHtml (if truthy k then k @ '' ('' @ herbName @ '')'' else herbName)\<rparr>]),
       placeholder := (placeholder s)(c := ''Add more herbs...'')\<rparr>"
  by (auto simp: addHerbTagInline_def herbs_of_def Let_def updatePlaceholder_def split: option.splits)

lemma addHerbTagInline_herbs:
  "herbs_of (addHerbTagInline svc i herbName c kn s) i =
     (if herbName \<in> set (herbs_of s i) then herbs_of s i else herbs_of s i @ [herbName])"
  by (auto simp: addHerbTagInline_def getKoreanName_def herbs_of_def Let_def updatePlaceholder_def
           split: option.splits)

lemma addHerbTagInline_tags:
  "map data_herb (tags (addHerbTagInline svc i herbName c kn s) c) =
     (if herbName \<in> set (herbs_of s i) then map data_herb (tags s c)
      else map data_herb (tags s c) @ [herbName])"
  by (auto simp: addHerbTagInline_def getKoreanName_def herbs_of_def Let_def updatePlaceholder_def
           split: option.splits)

lemma first_occurrences_set [simp]: "set (first_occurrences xs) = set xs"
  by (induction xs) auto

lemma first_occurrences_distinct [simp]: "distinct (first_occurrences xs)"
  by (induction xs) auto

lemma filter_absent_after:
  "h \<in> set l \<Longrightarrow> filter (\<lambda>x. x \<noteq> h \<and> x \<notin> set l) xs = filter (\<lambda>x. x \<notin> set l) xs"
  by (induction xs) auto

lemma addHerbTags_herbs:
  "herbs_of (addHerbTags svc i c calls s) i =
     herbs_of s i @ filter (\<lambda>x. x \<notin> set (herbs_of s i)) (first_occurrences (map fst calls))"
proof (induction calls arbitrary: s)
  case Nil
  then show ?case by simp
next
  case (Cons call calls)
  obtain h kn where call: "call = (h, kn)" by (cases call)
  let ?s1 = "addHerbTagInline svc i h c kn s"
  have ih: "herbs_of (addHerbTags svc i c calls ?s1) i =
     herbs_of ?s1 i @ filter (\<lambda>x. x \<notin> set (herbs_of ?s1 i)) (first_occurrences (map fst calls))"
    by (rule Cons.IH)
  show ?case
  proof (cases "h \<in> set (herbs_of s i)")
    case True
    then have "herbs_of ?s1 i = herbs_of s i" by (simp add: addHerbTagInline_herbs)
    with ih True show ?thesis by (simp add: call filter_absent_after)
  next
    case False
    then have "herbs_of ?s1 i = herbs_of s i @ [h]" by (simp add: addHerbTagInline_herbs)
    with ih False show ?thesis
      by (simp add: call conj_commute)
  qed
qed

lemma addHerbTags_tags:
  "map data_herb (tags (addHerbTags svc i c calls s) c) =
     map data_herb (tags s c) @ filter (\<lambda>x. x \<notin> set (herbs_of s i)) (first_occurrences (map fst calls))"
proof (induction calls arbitrary: s)
  case Nil
  then show ?case by simp
next
  case (Cons call calls)
  obtain h kn where call: "call = (h, kn)" by (cases call)
  let ?s1 = "addHerbTagInline svc i h c kn s"
  have ih: "map data_herb (tags (addHerbTags svc i c calls ?s1) c) =
     map data_herb (tags ?s1 c) @ filter (\<lambda>x. x \<notin> set (herbs_of ?s1 i)) (first_occurrences (map fst calls))"
    by (rule Cons.IH)
  show ?case
  proof (cases "h \<in> set (herbs_of s i)")
    case True
    then have "herbs_of ?s1 i = herbs_of s i" "map data_herb (tags ?s1 c) = map data_herb (tags s c)"
      by (simp_all add: addHerbTagInline_herbs addHerbTagInline_tags)
    with ih True show ?thesis by (simp add: call filter_absent_after)
  next
    case False
    then have "herbs_of ?s1 i = herbs_of s i @ [h]"
      "map data_herb (tags ?s1 c) = map data_herb (tags s c) @ [h]"
      by (simp_all add: addHerbTagInline_herbs addHerbTagInline_tags)
    with ih False show ?thesis
      by (simp add: call conj_commute)
  qed
qed

lemma filter_last_distinct:
  "distinct herbs \<Longrightarrow> herbs \<noteq> [] \<Longrightarrow> filter (\<lambda>h. h \<noteq> last herbs) herbs = butlast herbs"
proof -
  assume d: "distinct herbs" and n: "herbs \<noteq> []"
  then have e: "herbs = butlast herbs @ [last herbs]" by simp
  then have "distinct (butlast herbs @ [last herbs])" using d by simp
  then have notin: "last herbs \<notin> set (butlast herbs)" by simp
  have "filter (\<lambda>h. h \<noteq> last herbs) (butlast herbs @ [last herbs]) = butlast herbs"
    using notin by (auto simp: filter_id_conv)
  with e show ?thesis by simp
qed

text \<open>
  Claim C5. A call of \<open>addHerbTagInline\<close> with a name that is already in the herb list
  returns the state as it is, with the list and the rendered tags. A call keeps a
  list without duplicates free of duplicates. After any sequence of calls on a
  prescription whose herb list was empty, the list holds each distinct name of the
  sequence exactly once, in the order of first occurrence; when the container held
  no tags, its tags carry the same names in the same order.
\<close>

theorem addHerbTags_first_occurrences:
  "(herbName \<in> set (herbs_of s i) \<longrightarrow> addHerbTagInline svc i herbName c kn s = s)
   \<and> (distinct (herbs_of s i) \<longrightarrow> distinct (herbs_of (addHerbTagInline svc i herbName c kn s) i))
   \<and> (herbs_of s i = [] \<longrightarrow>
        herbs_of (addHerbTags svc i c calls s) i = first_occurrences (map fst calls)
        \<and> distinct (herbs_of (addHerbTags svc i c calls s) i)
        \<and> set (herbs_of (addHerbTags svc i c calls s) i) = set (map fst calls)
        \<and> (tags s c = [] \<longrightarrow>
             map data_herb (tags (addHerbTags svc i c calls s) c)
               = herbs_of (addHerbTags svc i c calls s) i))"
proof (intro conjI impI)
  assume "herbName \<in> set (herbs_of s i)"
  then show "addHerbTagInline svc i herbName c kn s = s" by (rule addHerbTagInline_present)
next
  assume "distinct (herbs_of s i)"
  then show "distinct (herbs_of (addHerbTagInline svc i herbName c kn s) i)"
    by (simp add: addHerbTagInline_herbs)
next
  assume e: "herbs_of s i = []"
  then show h: "herbs_of (addHerbTags svc i c calls s) i = first_occurrences (map fst calls)"
    by (simp add: addHerbTags_herbs)
  then show "distinct (herbs_of (addHerbTags svc i c calls s) i)" by simp
  from h show "set (herbs_of (addHerbTags svc i c calls s) i) = set (map fst calls)" by simp
  assume "tags s c = []"
  with e h show "map data_herb (tags (addHerbTags svc i c calls s) c) = herbs_of (addHerbTags svc i c calls s) i"
    by (simp add: addHerbTags_tags)
qed

lemma two_herbs_state_herbs: "herbs_of two_herbs_state i = (if i = 1 then [''Ginseng'', ''Licorice''] else [])"
  unfolding two_herbs_state_def
  by (simp add: addHerbTagInline_def getKoreanName_def herb_service_def js_or_def truthy_def
        herbs_of_def updatePlaceholder_def initial_state_def Let_def)

theorem addHerbTags_first_occurrences_witness:
  "herbs_of initial_state 1 = []
   \<and> tags initial_state 0 = []
   \<and> herbs_of (addHerbTags herb_service 1 0
         [(''Ginseng'', None), (''Licorice'', Some []), (''Ginseng'', Some ''Insam'')] initial_state) 1
       = [''Ginseng'', ''Licorice'']
   \<and> map data_herb (tags (addHerbTags herb_service 1 0
         [(''Ginseng'', None), (''Licorice'', Some []), (''Ginseng'', Some ''Insam'')] initial_state) 0)
       = [''Ginseng'', ''Licorice'']
   \<and> ''Ginseng'' \<in> set (herbs_of two_herbs_state 1)
   \<and> distinct (herbs_of two_herbs_state 1)
   \<and> addHerbTagInline herb_service 1 ''Ginseng'' 0 None two_herbs_state = two_herbs_state"
  using addHerbTags_first_occurrences[of "''Ginseng''" two_herbs_state 1 herb_service 0 None
          "[(''Ginseng'', None), (''Licorice'', Some []), (''Ginseng'', Some ''Insam'')]"]
        addHerbTags_first_occurrences[of "''Ginseng''" initial_state 1 herb_service 0 None
          "[(''Ginseng'', None), (''Licorice'', Some []), (''Ginseng'', Some ''Insam'')]"]
  by (simp add: herbs_of_initial tags_initial two_herbs_state_herbs del: One_nat_def)

section \<open>Bulk paste: the example of the specification\<close>

lemma decimal_3: "decimal (Suc (Suc (Suc 0))) = ''3''"
  by (simp add: decimal.simps digit_char_def)

lemma validate_Ginseng:
  "validateHerb herb_service ''Ginseng'' s =
     (Some \<lparr>herb_english = ''Ginseng'', herb_korean = ''Insam''\<rparr>,
      s\<lparr>herbKoreanCache := (herbKoreanCache s)(''Ginseng'' \<mapsto> ''Insam'')\<rparr>)"
  by (simp add: validateHerb_def herb_service_def js_or_def truthy_def)

lemma validate_Licorice:
  "validateHerb herb_service ''Licorice'' s = (Some \<lparr>herb_english = ''Licorice'', herb_korean = []\<rparr>, s)"
  by (simp add: validateHerb_def herb_service_def js_or_def truthy_def)

lemma classify_example:
  "herbs_of s i = [] \<Longrightarrow>
   classify herb_service i [''Ginseng'', ''Licorice'', ''Ginseng''] ([], [], [], s)
    = ([\<lparr>herb_english = ''Ginseng'', herb_korean = ''Insam''\<rparr>,
        \<lparr>herb_english = ''Licorice'', herb_korean = []\<rparr>,
        \<lparr>herb_english = ''Ginseng'', herb_korean = ''Insam''\<rparr>], [], [],
       s\<lparr>herbKoreanCache := (herbKoreanCache s)(''Ginseng'' \<mapsto> ''Insam'')\<rparr>)"
  by (auto simp: validate_Ginseng validate_Licorice herbs_of_def split: option.splits)

lemma addValid_example:
  "herbs_of s i = [] \<Longrightarrow>
   addValid svc i c [\<lparr>herb_english = ''Ginseng'', herb_korean = ''Insam''\<rparr>,
        \<lparr>herb_english = ''Licorice'', herb_korean = []\<rparr>,
        \<lparr>herb_english = ''Ginseng'', herb_korean = ''Insam''\<rparr>] s
   = s\<lparr>prescriptions := (prescriptions s)(i \<mapsto> [''Ginseng'', ''Licorice'']),
       tags := (tags s)(c := tags s c @ [\<lparr>data_herb = ''Ginseng'', tag_text = ''Insam (Ginseng)''\<rparr>,
                                          \<lparr>data_herb = ''Licorice'', tag_text = ''Licorice''\<rparr>]),
       placeholder := (placeholder s)(c := ''Add more herbs...'')\<rparr>"
  by (simp add: addHerbTagInline_new_given addHerbTagInline_present herbs_of_def truthy_def
        escapeHtml_def escapeChar_def)

text \<open>
  Every name of a paste is pushed onto exactly one of the three arrays, and the first
  loop leaves the prescriptions as they were: each name is compared with the herb
  list of before the paste.
\<close>

lemma validateHerb_prescriptions: "prescriptions (snd (validateHerb svc h s)) = prescriptions s"
  by (simp add: validateHerb_def split: option.splits)

lemma classify_partition:
  "classify svc i hs (validHerbs, invalidHerbs, duplicateHerbs, s) = (v', inv', dup', s') \<Longrightarrow>
     length v' + length inv' + length dup'
       = length validHerbs + length invalidHerbs + length duplicateHerbs + length hs
     \<and> prescriptions s' = prescriptions s"
proof (induction hs arbitrary: validHerbs invalidHerbs duplicateHerbs s)
  case Nil
  then show ?case by simp
next
  case (Cons h hs)
  obtain r s1 where v: "validateHerb svc h s = (r, s1)" by (cases "validateHerb svc h s")
  have p: "prescriptions s1 = prescriptions s"
    using validateHerb_prescriptions[of svc h s] v by simp
  show ?case
  proof (cases r)
    case None
    with Cons.prems v have "classify svc i hs (validHerbs, invalidHerbs @ [h], duplicateHerbs, s1) = (v', inv', dup', s')"
      by simp
    from Cons.IH[OF this] p show ?thesis by simp
  next
    case (Some validated)
    show ?thesis
    proof (cases "case prescriptions s1 i of None \<Rightarrow> False | Some herbs \<Rightarrow> herb_english validated \<in> set herbs")
      case True
      with Cons.prems v Some have "classify svc i hs (validHerbs, invalidHerbs, duplicateHerbs @ [h], s1) = (v', inv', dup', s')"
        by simp
      from Cons.IH[OF this] p show ?thesis by simp
    next
      case False
      with Cons.prems v Some have "classify svc i hs (validHerbs @ [validated], invalidHerbs, duplicateHerbs, s1) = (v', inv', dup', s')"
        by simp
      from Cons.IH[OF this] p show ?thesis by simp
    qed
  qed
qed

text \<open>
  Claim C1. The specification says that pasting \<open>Ginseng, Licorice, Ginseng\<close> into an
  empty prescription adds two tags, reports one duplicate and no invalid name, and that
  the success toast names the count added. The first loop of \<open>addBulkHerbs\<close> compares
  each name with the prescription as it was before the paste, so the second Ginseng
  is counted as valid; \<open>addHerbTagInline\<close> then skips it. The code adds the two tags,
  shows no toast about a duplicate, and its success toast says 3.
\<close>

theorem addBulkHerbs_repeated_name:
  "prescriptions (addBulkHerbs herb_service 1 [''Ginseng'', ''Licorice'', ''Ginseng''] 0 initial_state) 1
     = Some [''Ginseng'', ''Licorice'']
   \<and> map data_herb (tags (addBulkHerbs herb_service 1 [''Ginseng'', ''Licorice'', ''Ginseng''] 0 initial_state) 0)
     = [''Ginseng'', ''Licorice'']
   \<and> toasts (addBulkHerbs herb_service 1 [''Ginseng'', ''Licorice'', ''Ginseng''] 0 initial_state)
     = [\<lparr>kind = Info, message = ''Validating herbs...'', duration = 3000\<rparr>,
        \<lparr>kind = Success, message = ''Added 3 herbs successfully'', duration = 3000\<rparr>]"
  unfolding addBulkHerbs_def
  apply (simp add: classify_example herbs_of_initial addValid_example decimal_3
               del: classify.simps addValid.simps)
  apply (simp add: showToast_def initial_state_def)
  done

section \<open>Backspace\<close>

text \<open>
  Backspace in an empty herb input, for the index \<open>i\<close> that the handler holds: when the
  herb list under \<open>i\<close> is not empty (and, as every list the code builds, without
  duplicates), the list afterwards is the list without its last element, whatever
  \<open>querySelector\<close> does, and the lists under the other indices stay. When there is no
  list under \<open>i\<close>, or an empty one, the state is unchanged.
\<close>

lemma herbKeydownBackspace_held_index:
  "(prescriptions s i = Some herbs \<and> herbs \<noteq> [] \<and> distinct herbs \<longrightarrow>
      prescriptions (snd (herbKeydownBackspace qs i c [] s)) i = Some (butlast herbs)
      \<and> (\<forall>j. j \<noteq> i \<longrightarrow> prescriptions (snd (herbKeydownBackspace qs i c [] s)) j = prescriptions s j))
   \<and> (herbs_of s i = [] \<longrightarrow> herbKeydownBackspace qs i c [] s = (None, s))"
proof (intro conjI impI allI)
  assume a: "prescriptions s i = Some herbs \<and> herbs \<noteq> [] \<and> distinct herbs"
  then have f: "filter (\<lambda>h. h \<noteq> last herbs) herbs = butlast herbs"
    by (simp add: filter_last_distinct)
  from a f show "prescriptions (snd (herbKeydownBackspace qs i c [] s)) i = Some (butlast herbs)"
    by (auto simp: herbKeydownBackspace_def removeHerbTagInline_def updatePlaceholder_def Let_def
             split: sum.splits option.splits)
  fix j assume "j \<noteq> i"
  with a show "prescriptions (snd (herbKeydownBackspace qs i c [] s)) j = prescriptions s j"
    by (auto simp: herbKeydownBackspace_def removeHerbTagInline_def updatePlaceholder_def Let_def
             split: sum.splits option.splits)
next
  assume "herbs_of s i = []"
  then show "herbKeydownBackspace qs i c [] s = (None, s)"
    by (auto simp: herbKeydownBackspace_def herbs_of_def split: option.splits)
qed

text \<open>
  The tag that goes. With a \<open>querySelector\<close> that finds the first tag whose \<open>data-herb\<close> is
  the name asked for, \<open>removeHerbTagInline\<close> takes the first tag of that name out of
  the container; Backspace in a container whose tags show the herb list, for the
  index of that list, removes the last herb and the last tag.
\<close>

lemma herb_tag_selector_inj: "(herb_tag_selector a = herb_tag_selector b) = (a = b)"
  by (simp add: herb_tag_selector_def)

lemma first_match_remove_at:
  "map f (case first_match (\<lambda>t. f t = h) ts of None \<Rightarrow> ts | Some i \<Rightarrow> remove_at i ts)
     = remove1 h (map f ts)"
  by (induction ts) (auto simp: remove_at_def split: option.splits)

lemma removeHerbTagInline_first_tag:
  assumes "prescriptions s i = Some herbs"
  shows "fst (removeHerbTagInline example_querySelector i h c s) = None
     \<and> prescriptions (snd (removeHerbTagInline example_querySelector i h c s))
         = (prescriptions s)(i \<mapsto> filter (\<lambda>x. x \<noteq> h) herbs)
     \<and> map data_herb (tags (snd (removeHerbTagInline example_querySelector i h c s)) c)
         = remove1 h (map data_herb (tags s c))"
  using assms first_match_remove_at[where f = data_herb and h = h and ts = "tags s c"]
  by (auto simp: removeHerbTagInline_def example_querySelector_def herb_tag_selector_inj
        updatePlaceholder_def Let_def split: option.splits)

lemma remove1_last_distinct:
  "distinct xs \<Longrightarrow> xs \<noteq> [] \<Longrightarrow> remove1 (last xs) xs = butlast xs"
proof -
  assume d: "distinct xs" and n: "xs \<noteq> []"
  then have e: "xs = butlast xs @ [last xs]" by simp
  then have "distinct (butlast xs @ [last xs])" using d by simp
  then have "last xs \<notin> set (butlast xs)" by simp
  then have "remove1 (last xs) (butlast xs @ [last xs]) = butlast xs"
    by (simp add: remove1_append)
  with e show ?thesis by simp
qed

lemma herbKeydownBackspace_last_tag:
  assumes "prescriptions s i = Some herbs" and "herbs \<noteq> []" and "distinct herbs"
    and "map data_herb (tags s c) = herbs"
  shows "fst (herbKeydownBackspace example_querySelector i c [] s) = None
     \<and> prescriptions (snd (herbKeydownBackspace example_querySelector i c [] s))
         = (prescriptions s)(i \<mapsto> butlast herbs)
     \<and> map data_herb (tags (snd (herbKeydownBackspace example_querySelector i c [] s)) c)
         = butlast herbs"
proof -
  have b: "herbKeydownBackspace example_querySelector i c [] s
      = removeHerbTagInline example_querySelector i (last herbs) c s"
    using assms(1,2) by (simp add: herbKeydownBackspace_def)
  show ?thesis
    unfolding b
    using removeHerbTagInline_first_tag[OF assms(1), of "last herbs" c] assms(2,3,4)
    by (simp add: filter_last_distinct remove1_last_distinct)
qed

section \<open>Removing a prescription\<close>

lemma renumber_cards_node [simp]: "map node (renumber_cards cs i) = map node cs"
  by (induction cs arbitrary: i) auto

lemma renumber_cards_length [simp]: "length (renumber_cards cs i) = length cs"
  by (induction cs arbitrary: i) auto

lemma renumber_cards_index: "map data_index (renumber_cards cs i) = [i + 1 ..< i + length cs + 1]"
proof (induction cs arbitrary: i)
  case Nil
  then show ?case by simp
next
  case (Cons c cs)
  have "[i + 1 ..< i + length (c # cs) + 1] = (i + 1) # [i + 1 + 1 ..< i + 1 + length cs + 1]"
    using upt_conv_Cons[of "i + 1" "i + length (c # cs) + 1"] by simp
  with Cons.IH[of "i + 1"] show ?case by simp
qed

lemma renumber_map_lookup:
  "renumber_map old cs i m j =
     (if i < j \<and> j \<le> i + length cs
      then Some (case old (data_index (cs ! (j - i - 1))) of None \<Rightarrow> [] | Some herbs \<Rightarrow> herbs)
      else m j)"
proof (induction cs arbitrary: i m j)
  case Nil
  then show ?case by auto
next
  case (Cons c cs)
  show ?case
  proof (cases "j = i + 1")
    case True
    then show ?thesis by (simp add: Cons.IH)
  next
    case False
    then show ?thesis by (auto simp: Cons.IH nth_Cons')
  qed
qed

lemma filter_absent_node: "e \<notin> node ` set cs \<Longrightarrow> filter (\<lambda>c. node c \<noteq> e) cs = cs"
  by (induction cs) auto

lemma filter_node_length:
  "distinct (map node cs) \<Longrightarrow> length cs - 1 \<le> length (filter (\<lambda>c. node c \<noteq> e) cs)"
proof (induction cs)
  case Nil
  then show ?case by simp
next
  case (Cons c cs)
  show ?case
  proof (cases "node c = e")
    case True
    with Cons.prems have "filter (\<lambda>c. node c \<noteq> e) cs = cs" by (simp add: filter_absent_node)
    with True show ?thesis by simp
  next
    case False
    with Cons show ?thesis by auto
  qed
qed

lemma filter_node_remove1:
  "distinct (map node cs) \<Longrightarrow> c \<in> set cs \<Longrightarrow> filter (\<lambda>d. node d \<noteq> node c) cs = remove1 c cs"
proof (induction cs)
  case Nil
  then show ?case by simp
next
  case (Cons d cs)
  show ?case
  proof (cases "d = c")
    case True
    with Cons.prems have "filter (\<lambda>d. node d \<noteq> node c) cs = cs" by (simp add: filter_absent_node)
    with True show ?thesis by simp
  next
    case False
    with Cons.prems have "c \<in> set cs" by simp
    then have "node d \<noteq> node c" using Cons.prems(1) by auto
    with Cons False \<open>c \<in> set cs\<close> show ?thesis by simp
  qed
qed

lemma consistent_length: "consistent s \<Longrightarrow> length (cards s) = prescriptionCount s"
proof -
  assume "consistent s"
  then have "length (map data_index (cards s)) = length [1 ..< prescriptionCount s + 1]"
    by (simp add: consistent_def)
  then show ?thesis by simp
qed

lemma survivors_length:
  assumes "consistent s" and "c \<in> set (cards s)"
  shows "length (survivors (node c) s) = prescriptionCount s - 1"
proof -
  have d: "distinct (map node (cards s))" using assms(1) by (simp add: consistent_def)
  have "survivors (node c) s = remove1 c (cards s)"
    unfolding survivors_def using d assms(2) by (rule filter_node_remove1)
  then show ?thesis using assms by (simp add: length_remove1 consistent_length)
qed

lemma survivor_index:
  assumes "consistent s" and "c \<in> set (cards s)" and "d \<in> set (survivors (node c) s)"
  shows "data_index d \<noteq> data_index c"
proof
  assume e: "data_index d = data_index c"
  have "distinct (map data_index (cards s))" using assms(1) by (simp add: consistent_def)
  then have "inj_on data_index (set (cards s))" by (simp add: distinct_map)
  moreover have "d \<in> set (cards s)" "node d \<noteq> node c" using assms(3) by (simp_all add: survivors_def)
  ultimately show False using e assms(2) by (auto dest: inj_onD)
qed

lemma removePrescription_unfold:
  "1 < prescriptionCount s \<Longrightarrow>
   removePrescription index element s =
     s\<lparr>prescriptions := renumber_map ((prescriptions s)(index := None)) (survivors element s) 0 Map.empty,
       cards := renumber_cards (survivors element s) 0,
       prescriptionCount := length (survivors element s)\<rparr>"
  by (simp add: removePrescription_def renumberPrescriptions_def survivors_def)

text \<open>
  What \<open>removePrescription\<close> does when \<open>index\<close> is the \<open>data-index\<close> the card has at the
  moment of the call. In a state whose cards carry the indices
  \<open>1, ..., prescriptionCount\<close>, with at least two prescriptions, the call leaves the
  other cards in their order, numbers them \<open>1, ..., prescriptionCount - 1\<close>, and gives
  the card now in place \<open>k + 1\<close> the herb list it had before.
\<close>

lemma removePrescription_own_index:
  assumes "consistent s" and "2 \<le> prescriptionCount s" and "c \<in> set (cards s)"
  shows "prescriptionCount (removePrescription (data_index c) (node c) s) = prescriptionCount s - 1
    \<and> survivors (node c) s = remove1 c (cards s)
    \<and> map node (cards (removePrescription (data_index c) (node c) s)) = map node (survivors (node c) s)
    \<and> map data_index (cards (removePrescription (data_index c) (node c) s)) = [1 ..< prescriptionCount s]
    \<and> dom (prescriptions (removePrescription (data_index c) (node c) s)) = {1 ..< prescriptionCount s}
    \<and> (\<forall>k < prescriptionCount s - 1.
          herbs_of (removePrescription (data_index c) (node c) s) (k + 1)
            = herbs_of s (data_index (survivors (node c) s ! k)))
    \<and> consistent (removePrescription (data_index c) (node c) s)"
proof -
  let ?s' = "removePrescription (data_index c) (node c) s"
  let ?sv = "survivors (node c) s"
  have u: "?s' = s\<lparr>prescriptions := renumber_map ((prescriptions s)(data_index c := None)) ?sv 0 Map.empty,
       cards := renumber_cards ?sv 0, prescriptionCount := length ?sv\<rparr>"
    using assms(2) by (simp add: removePrescription_unfold)
  have len: "length ?sv = prescriptionCount s - 1"
    using assms(1,3) by (rule survivors_length)
  have d: "distinct (map node (cards s))" using assms(1) by (simp add: consistent_def)
  have r1: "?sv = remove1 c (cards s)"
    unfolding survivors_def using d assms(3) by (rule filter_node_remove1)
  have c1: "prescriptionCount ?s' = prescriptionCount s - 1" by (simp add: u len)
  have c3: "map node (cards ?s') = map node ?sv" by (simp add: u)
  have c4: "map data_index (cards ?s') = [1 ..< prescriptionCount s]"
    using assms(2) by (simp add: u renumber_cards_index len)
  have c5: "dom (prescriptions ?s') = {1 ..< prescriptionCount s}"
    using assms(2) by (auto simp: u renumber_map_lookup len dom_def)
  have c6: "\<forall>k < prescriptionCount s - 1. herbs_of ?s' (k + 1) = herbs_of s (data_index (?sv ! k))"
  proof (intro allI impI)
    fix k assume k: "k < prescriptionCount s - 1"
    then have "?sv ! k \<in> set ?sv" using len by simp
    then have "data_index (?sv ! k) \<noteq> data_index c"
      using assms(1,3) survivor_index by blast
    then show "herbs_of ?s' (k + 1) = herbs_of s (data_index (?sv ! k))"
      using k by (simp add: u herbs_of_def renumber_map_lookup len)
  qed
  have c7: "consistent ?s'"
    unfolding consistent_def
    using c4 c1 c3 d assms(2) by (simp add: survivors_def distinct_map_filter)
  from c1 r1 c3 c4 c5 c6 c7 show ?thesis by blast
qed

lemma addHerbTagInline_registry:
  "cards (addHerbTagInline svc i h c kn s) = cards s
   \<and> prescriptionCount (addHerbTagInline svc i h c kn s) = prescriptionCount s
   \<and> maxPrescriptions (addHerbTagInline svc i h c kn s) = maxPrescriptions s
   \<and> next_node (addHerbTagInline svc i h c kn s) = next_node s"
  by (auto simp: addHerbTagInline_def getKoreanName_def updatePlaceholder_def Let_def
           split: option.splits)

lemma second_only_state_herbs:
  "herbs_of second_only_state i = (if i = 2 then [''Licorice''] else [])"
  unfolding second_only_state_def
  by (simp add: addHerbTagInline_herbs herbs_of_initial) (simp add: addHerbTagInline_def getKoreanName_def herbs_of_def initial_state_def Let_def updatePlaceholder_def herb_service_def js_or_def truthy_def)

lemma second_only_state_registry:
  "cards second_only_state = [\<lparr>node = 0, data_index = 1\<rparr>, \<lparr>node = 1, data_index = 2\<rparr>]
   \<and> prescriptionCount second_only_state = 2"
  unfolding second_only_state_def
  by (simp add: addHerbTagInline_registry) (simp add: initial_state_def)

lemma removePrescription_own_index_example:
  "consistent second_only_state
   \<and> 2 \<le> prescriptionCount second_only_state
   \<and> \<lparr>node = 0, data_index = 1\<rparr> \<in> set (cards second_only_state)
   \<and> herbs_of second_only_state 2 = [''Licorice'']
   \<and> prescriptionCount (removePrescription 1 0 second_only_state) = 1
   \<and> map node (cards (removePrescription 1 0 second_only_state)) = [1]
   \<and> map data_index (cards (removePrescription 1 0 second_only_state)) = [1]
   \<and> herbs_of (removePrescription 1 0 second_only_state) 1 = [''Licorice'']"
proof -
  have c: "consistent second_only_state"
    by (simp add: consistent_def second_only_state_registry upt_rec)
  have n: "2 \<le> prescriptionCount second_only_state"
    by (simp add: second_only_state_registry)
  have m: "\<lparr>node = 0, data_index = 1\<rparr> \<in> set (cards second_only_state)"
    by (simp add: second_only_state_registry)
  have sv: "survivors 0 second_only_state = [\<lparr>node = 1, data_index = 2\<rparr>]"
    by (simp add: survivors_def second_only_state_registry)
  from removePrescription_own_index[OF c n m] c n m sv show ?thesis
    by (simp add: second_only_state_registry second_only_state_herbs upt_rec)
qed

section \<open>The bounds of the prescription count\<close>

lemma showToast_fields [simp]:
  "prescriptionCount (showToast m ty d s) = prescriptionCount s"
  "maxPrescriptions (showToast m ty d s) = maxPrescriptions s"
  "prescriptions (showToast m ty d s) = prescriptions s"
  "cards (showToast m ty d s) = cards s"
  "next_node (showToast m ty d s) = next_node s"
  "last (toasts (showToast m ty d s)) = \<lparr>kind = ty, message = m, duration = d\<rparr>"
  by (simp_all add: showToast_def)

lemma addPrescription_ok: "registry_ok s \<Longrightarrow> registry_ok (addPrescription s)"
  by (auto simp: registry_ok_def addPrescription_def Let_def list_all_iff)

lemma removePrescription_ok:
  assumes "registry_ok s"
  shows "registry_ok (removePrescription index element s)"
proof (cases "prescriptionCount s \<le> 1")
  case True
  with assms show ?thesis by (simp add: removePrescription_def registry_ok_def)
next
  case False
  then have u: "removePrescription index element s =
     s\<lparr>prescriptions := renumber_map ((prescriptions s)(index := None)) (survivors element s) 0 Map.empty,
       cards := renumber_cards (survivors element s) 0,
       prescriptionCount := length (survivors element s)\<rparr>"
    by (simp add: removePrescription_unfold)
  have d: "distinct (map node (cards s))" using assms by (simp add: registry_ok_def)
  have lo: "length (cards s) - 1 \<le> length (survivors element s)"
    unfolding survivors_def using d by (rule filter_node_length)
  have hi: "length (survivors element s) \<le> length (cards s)"
    by (simp add: survivors_def)
  have nodes: "list_all (\<lambda>c. c < next_node s) (map node (renumber_cards (survivors element s) 0))"
    using assms by (auto simp: registry_ok_def survivors_def list_all_iff)
  have dist: "distinct (map node (renumber_cards (survivors element s) 0))"
    using d by (simp add: survivors_def distinct_map_filter)
  show ?thesis
    unfolding registry_ok_def u
    using assms False lo hi nodes dist
    by (simp add: registry_ok_def list_all_iff del: renumber_cards_node)
qed

lemma addPrescription_max [simp]: "maxPrescriptions (addPrescription s) = maxPrescriptions s"
  by (simp add: addPrescription_def Let_def)

lemma removePrescription_max [simp]:
  "maxPrescriptions (removePrescription index element s) = maxPrescriptions s"
  by (simp add: removePrescription_def renumberPrescriptions_def)

lemma run_ops_ok:
  "registry_ok s \<Longrightarrow> registry_ok (run_ops ops s) \<and> maxPrescriptions (run_ops ops s) = maxPrescriptions s"
proof (induction ops arbitrary: s)
  case Nil
  then show ?case by simp
next
  case (Cons op ops)
  have "registry_ok (run_op op s) \<and> maxPrescriptions (run_op op s) = maxPrescriptions s"
    using Cons.prems by (cases op) (simp_all add: addPrescription_ok removePrescription_ok)
  with Cons.IH[of "run_op op s"] show ?case by simp
qed

text \<open>
  Claim C4. \<open>addPrescription\<close> at the maximum and \<open>removePrescription\<close> at one prescription
  change neither the count nor the prescriptions nor the cards, and the toast they
  show last is a warning. From a state in which the counter is the number of cards
  and lies between 1 and the maximum, every sequence of calls of the two functions,
  whatever their arguments, keeps the counter between 1 and the maximum.
\<close>

theorem prescriptionCount_bounds:
  "(maxPrescriptions s \<le> prescriptionCount s \<longrightarrow>
      prescriptionCount (addPrescription s) = prescriptionCount s
      \<and> prescriptions (addPrescription s) = prescriptions s
      \<and> cards (addPrescription s) = cards s
      \<and> last (toasts (addPrescription s))
          = \<lparr>kind = Warning, message = ''Maximum 3 prescriptions allowed'', duration = 3000\<rparr>)
   \<and> (prescriptionCount s \<le> 1 \<longrightarrow>
      prescriptionCount (removePrescription index element s) = prescriptionCount s
      \<and> prescriptions (removePrescription index element s) = prescriptions s
      \<and> cards (removePrescription index element s) = cards s
      \<and> last (toasts (removePrescription index element s))
          = \<lparr>kind = Warning, message = ''At least one prescription is required'', duration = 3000\<rparr>)
   \<and> (registry_ok s \<longrightarrow>
      registry_ok (run_ops ops s)
      \<and> 1 \<le> prescriptionCount (run_ops ops s)
      \<and> prescriptionCount (run_ops ops s) \<le> maxPrescriptions s)"
proof (intro conjI impI)
  assume "registry_ok s"
  then have r: "registry_ok (run_ops ops s) \<and> maxPrescriptions (run_ops ops s) = maxPrescriptions s"
    by (rule run_ops_ok)
  then show "registry_ok (run_ops ops s)" by simp
  from r show "1 \<le> prescriptionCount (run_ops ops s)" by (simp add: registry_ok_def)
  from r show "prescriptionCount (run_ops ops s) \<le> maxPrescriptions s" by (simp add: registry_ok_def)
qed (simp_all add: addPrescription_def removePrescription_def)

lemma single_card_state_fields:
  "prescriptionCount single_card_state = 1
   \<and> cards single_card_state = [\<lparr>node = 1, data_index = 1\<rparr>]
   \<and> maxPrescriptions single_card_state = 2
   \<and> next_node single_card_state = 2"
  by (simp add: single_card_state_def removePrescription_def renumberPrescriptions_def initial_state_def)

lemma initial_state_ok: "registry_ok initial_state"
  by (simp add: registry_ok_def initial_state_def)

theorem prescriptionCount_bounds_witness:
  "maxPrescriptions initial_state \<le> prescriptionCount initial_state
   \<and> prescriptionCount (addPrescription initial_state) = 2
   \<and> last (toasts (addPrescription initial_state))
       = \<lparr>kind = Warning, message = ''Maximum 3 prescriptions allowed'', duration = 3000\<rparr>
   \<and> prescriptionCount single_card_state \<le> 1
   \<and> prescriptionCount (removePrescription 1 1 single_card_state) = 1
   \<and> last (toasts (removePrescription 1 1 single_card_state))
       = \<lparr>kind = Warning, message = ''At least one prescription is required'', duration = 3000\<rparr>
   \<and> registry_ok initial_state
   \<and> 1 \<le> prescriptionCount (run_ops [Remove 1 0, Add, Add, Remove 7 9, Remove 2 2, Remove 1 1] initial_state)
   \<and> prescriptionCount (run_ops [Remove 1 0, Add, Add, Remove 7 9, Remove 2 2, Remove 1 1] initial_state) \<le> 2"
  using prescriptionCount_bounds[of initial_state 1 1 "[Remove 1 0, Add, Add, Remove 7 9, Remove 2 2, Remove 1 1]"]
        prescriptionCount_bounds[of single_card_state 1 1 "[]"]
        initial_state_ok
  by (simp add: single_card_state_fields del: run_ops.simps One_nat_def) (simp add: initial_state_def)

section \<open>The states the calls reach\<close>

text \<open>
  In every state that calls of \<open>addPrescription\<close> and \<open>removePrescription\<close> reach from the
  initial state the cards are numbered \<open>1, ..., prescriptionCount\<close>, whatever the
  arguments of the calls: the \<open>data-index\<close> attributes are always up to date, while the
  indices the listeners hold are not.
\<close>

lemma addPrescription_consistent:
  "registry_ok s \<Longrightarrow> consistent s \<Longrightarrow> consistent (addPrescription s)"
  by (auto simp: registry_ok_def consistent_def addPrescription_def Let_def list_all_iff)

lemma removePrescription_consistent:
  assumes "registry_ok s" and "consistent s"
  shows "consistent (removePrescription index element s)"
proof (cases "prescriptionCount s \<le> 1")
  case True
  with assms(2) show ?thesis by (simp add: removePrescription_def consistent_def)
next
  case False
  then have u: "removePrescription index element s =
     s\<lparr>prescriptions := renumber_map ((prescriptions s)(index := None)) (survivors element s) 0 Map.empty,
       cards := renumber_cards (survivors element s) 0,
       prescriptionCount := length (survivors element s)\<rparr>"
    by (simp add: removePrescription_unfold)
  have "distinct (map node (survivors element s))"
    using assms(2) by (simp add: consistent_def survivors_def distinct_map_filter)
  then show ?thesis
    by (simp add: u consistent_def renumber_cards_index)
qed

lemma run_ops_consistent:
  "registry_ok s \<Longrightarrow> consistent s \<Longrightarrow> consistent (run_ops ops s)"
proof (induction ops arbitrary: s)
  case Nil
  then show ?case by simp
next
  case (Cons op ops)
  have "registry_ok (run_op op s)"
    using Cons.prems(1) by (cases op) (simp_all add: addPrescription_ok removePrescription_ok)
  moreover have "consistent (run_op op s)"
    using Cons.prems
    by (cases op) (simp_all add: addPrescription_consistent removePrescription_consistent)
  ultimately show ?case using Cons.IH by simp
qed

lemma initial_state_consistent: "consistent initial_state"
  by (simp add: consistent_def initial_state_def upt_rec)

lemma reachable_consistent: "consistent (run_ops ops initial_state)"
  using run_ops_consistent[OF initial_state_ok initial_state_consistent] .

text \<open>
  A herb list never holds a name twice: the functions that change the lists keep
  every list free of duplicates.
\<close>

lemma addHerbTagInline_other:
  "j \<noteq> i \<Longrightarrow> herbs_of (addHerbTagInline svc i h c kn s) j = herbs_of s j"
  by (auto simp: addHerbTagInline_def getKoreanName_def herbs_of_def Let_def updatePlaceholder_def
           split: option.splits)

lemma addHerbTagInline_distinct:
  assumes "\<forall>j. distinct (herbs_of s j)"
  shows "distinct (herbs_of (addHerbTagInline svc i h c kn s) j)"
proof (cases "j = i")
  case True
  with assms show ?thesis by (simp add: addHerbTagInline_herbs)
next
  case False
  with assms show ?thesis by (simp add: addHerbTagInline_other)
qed

lemma removeHerbTagInline_distinct:
  assumes "\<forall>j. distinct (herbs_of s j)"
  shows "distinct (herbs_of (snd (removeHerbTagInline qs i h c s)) j)"
proof (cases "prescriptions s i")
  case None
  with assms show ?thesis by (simp add: removeHerbTagInline_def)
next
  case (Some herbs)
  have "distinct (herbs_of s i)" "distinct (herbs_of s j)" using assms by simp_all
  with Some show ?thesis
    by (auto simp: removeHerbTagInline_def herbs_of_def updatePlaceholder_def Let_def
             split: sum.splits option.splits)
qed

lemma addPrescription_distinct:
  "\<forall>j. distinct (herbs_of s j) \<Longrightarrow> distinct (herbs_of (addPrescription s) j)"
  by (auto simp: addPrescription_def herbs_of_def showToast_def Let_def split: option.splits)

lemma removePrescription_distinct:
  assumes "\<forall>j. distinct (herbs_of s j)"
  shows "distinct (herbs_of (removePrescription index element s) j)"
proof (cases "prescriptionCount s \<le> 1")
  case True
  with assms show ?thesis by (simp add: removePrescription_def)
next
  case False
  then have u: "removePrescription index element s =
     s\<lparr>prescriptions := renumber_map ((prescriptions s)(index := None)) (survivors element s) 0 Map.empty,
       cards := renumber_cards (survivors element s) 0,
       prescriptionCount := length (survivors element s)\<rparr>"
    by (simp add: removePrescription_unfold)
  have "\<And>k. distinct (case ((prescriptions s)(index := None)) k of None \<Rightarrow> [] | Some herbs \<Rightarrow> herbs)"
  proof -
    fix k
    have "distinct (herbs_of s k)" using assms by simp
    then show "distinct (case ((prescriptions s)(index := None)) k of None \<Rightarrow> [] | Some herbs \<Rightarrow> herbs)"
      by (simp add: herbs_of_def)
  qed
  then show ?thesis
    by (simp add: u herbs_of_def renumber_map_lookup)
qed

section \<open>Form submission\<close>

lemma trim_empty: "(trim t = []) = (\<forall>c \<in> set t. is_space c)"
proof
  assume "trim t = []"
  then have a: "\<forall>c \<in> set (dropWhile is_space t). is_space c"
    by (simp add: trim_def)
  have "dropWhile is_space t = []"
  proof (rule ccontr)
    assume n: "dropWhile is_space t \<noteq> []"
    then have "\<not> is_space (hd (dropWhile is_space t))" by (rule hd_dropWhile)
    moreover have "hd (dropWhile is_space t) \<in> set (dropWhile is_space t)"
      using n by (rule hd_in_set)
    ultimately show False using a by blast
  qed
  then show "\<forall>c \<in> set t. is_space c" by simp
next
  assume "\<forall>c \<in> set t. is_space c"
  then show "trim t = []" by (auto simp: trim_def dest: set_dropWhileD)
qed

lemma set_upt_from_1: "set [1 ..< n + 1] = {1 .. n}"
  by auto

lemma collect_herbs_eq:
  "collect_herbs s is (acc, b) =
     (acc @ map (\<lambda>i. join '', '' (herbs_of s i)) (filter (\<lambda>i. herbs_of s i \<noteq> []) is),
      b \<or> (\<exists>i \<in> set is. herbs_of s i \<noteq> []))"
  by (induction "is" arbitrary: acc b) auto

lemma handleFormSubmit_unfold:
  "trim diseaseValue \<noteq> [] \<Longrightarrow> L = [1 ..< prescriptionCount s + 1] \<Longrightarrow>
   handleFormSubmit diseaseValue s =
     (if \<exists>i \<in> set L. herbs_of s i \<noteq> []
      then (Some (map (\<lambda>i. join '', '' (herbs_of s i)) (filter (\<lambda>i. herbs_of s i \<noteq> []) L)), s)
      else (None, showToast ''Please add at least one herb to a prescription'' Error 3000 s))"
  unfolding handleFormSubmit_def collect_herbs_eq by (simp add: truthy_def)

text \<open>
  Claim C6. With a disease text that is empty or white space only the handler
  returns early with the disease message, whatever the prescriptions hold. With a
  disease and no herb in any of the prescriptions \<open>1, ..., prescriptionCount\<close> it returns
  early with the herb message. Otherwise it submits, the state unchanged, and the
  array holds, for the non-empty prescriptions in index order, their herb names
  joined with a comma and a space; an empty prescription contributes nothing.
\<close>

theorem handleFormSubmit_cases:
  "((\<forall>ch \<in> set diseaseValue. is_space ch) \<longrightarrow>
      handleFormSubmit diseaseValue s
        = (None, showToast ''Please enter a disease name'' Error 3000 s))
   \<and> ((\<exists>ch \<in> set diseaseValue. \<not> is_space ch)
        \<and> (\<forall>i \<in> {1 .. prescriptionCount s}. herbs_of s i = []) \<longrightarrow>
      handleFormSubmit diseaseValue s
        = (None, showToast ''Please add at least one herb to a prescription'' Error 3000 s))
   \<and> ((\<exists>ch \<in> set diseaseValue. \<not> is_space ch)
        \<and> (\<exists>i \<in> {1 .. prescriptionCount s}. herbs_of s i \<noteq> []) \<longrightarrow>
      handleFormSubmit diseaseValue s
        = (Some (map (\<lambda>i. join '', '' (herbs_of s i))
                   (filter (\<lambda>i. herbs_of s i \<noteq> []) [1 ..< prescriptionCount s + 1])), s))"
proof (intro conjI impI)
  assume "\<forall>ch \<in> set diseaseValue. is_space ch"
  then have "trim diseaseValue = []" by (simp add: trim_empty)
  then show "handleFormSubmit diseaseValue s
        = (None, showToast ''Please enter a disease name'' Error 3000 s)"
    by (simp add: handleFormSubmit_def truthy_def)
next
  define L where "L = [1 ..< prescriptionCount s + 1]"
  then have sL: "set L = {1 .. prescriptionCount s}" by (simp only: set_upt_from_1)
  assume a: "(\<exists>ch \<in> set diseaseValue. \<not> is_space ch)
        \<and> (\<forall>i \<in> {1 .. prescriptionCount s}. herbs_of s i = [])"
  then have t: "trim diseaseValue \<noteq> []" by (simp add: trim_empty)
  from a have "\<not> (\<exists>i \<in> set L. herbs_of s i \<noteq> [])"
    unfolding sL by blast
  then show "handleFormSubmit diseaseValue s
        = (None, showToast ''Please add at least one herb to a prescription'' Error 3000 s)"
    using handleFormSubmit_unfold[OF t L_def] by simp
next
  define L where "L = [1 ..< prescriptionCount s + 1]"
  then have sL: "set L = {1 .. prescriptionCount s}" by (simp only: set_upt_from_1)
  assume a: "(\<exists>ch \<in> set diseaseValue. \<not> is_space ch)
        \<and> (\<exists>i \<in> {1 .. prescriptionCount s}. herbs_of s i \<noteq> [])"
  then have t: "trim diseaseValue \<noteq> []" by (simp add: trim_empty)
  from a have "\<exists>i \<in> set L. herbs_of s i \<noteq> []"
    unfolding sL by blast
  then have "handleFormSubmit diseaseValue s
        = (Some (map (\<lambda>i. join '', '' (herbs_of s i)) (filter (\<lambda>i. herbs_of s i \<noteq> []) L)), s)"
    using handleFormSubmit_unfold[OF t L_def] by simp
  then show "handleFormSubmit diseaseValue s
        = (Some (map (\<lambda>i. join '', '' (herbs_of s i))
                   (filter (\<lambda>i. herbs_of s i \<noteq> []) [1 ..< prescriptionCount s + 1])), s)"
    unfolding L_def .
qed

lemma initial_state_count: "prescriptionCount initial_state = 2"
  by (simp add: initial_state_def)

theorem handleFormSubmit_cases_witness:
  "\<not> is_space CHR ''f''
   \<and> prescriptionCount second_only_state = 2
   \<and> herbs_of second_only_state 1 = []
   \<and> herbs_of second_only_state 2 = [''Licorice'']
   \<and> handleFormSubmit ''flu'' second_only_state = (Some [''Licorice''], second_only_state)
   \<and> handleFormSubmit ''flu'' two_herbs_state = (Some [''Ginseng, Licorice''], two_herbs_state)
   \<and> prescriptionCount initial_state = 2
   \<and> herbs_of initial_state 1 = []
   \<and> herbs_of initial_state 2 = []
   \<and> fst (handleFormSubmit ''flu'' initial_state) = None
   \<and> is_space CHR '' ''
   \<and> fst (handleFormSubmit '' '' second_only_state) = None"
proof -
  have f: "\<not> is_space CHR ''f''" and sp: "is_space CHR '' ''" by (simp_all add: is_space_def)
  from f have d: "\<exists>ch \<in> set ''flu''. \<not> is_space ch" by simp
  from sp have w: "\<forall>ch \<in> set '' ''. is_space ch" by simp
  have h2: "\<exists>i \<in> {1 .. prescriptionCount second_only_state}. herbs_of second_only_state i \<noteq> []"
    by (simp add: second_only_state_registry second_only_state_herbs)
  have c2: "prescriptionCount two_herbs_state = 2"
    unfolding two_herbs_state_def by (simp add: addHerbTagInline_registry initial_state_count)
  have h3: "\<exists>i \<in> {1 .. prescriptionCount two_herbs_state}. herbs_of two_herbs_state i \<noteq> []"
    by (auto simp: c2 two_herbs_state_herbs)
  have h0: "\<forall>i \<in> {1 .. prescriptionCount initial_state}. herbs_of initial_state i = []"
    by (simp add: herbs_of_initial)
  have "handleFormSubmit ''flu'' second_only_state = (Some [''Licorice''], second_only_state)"
    using handleFormSubmit_cases[of "''flu''" second_only_state] d h2
    by (simp add: second_only_state_registry second_only_state_herbs upt_rec)
  moreover have "handleFormSubmit ''flu'' two_herbs_state = (Some [''Ginseng, Licorice''], two_herbs_state)"
    using handleFormSubmit_cases[of "''flu''" two_herbs_state] d h3
    by (simp add: c2 two_herbs_state_herbs upt_rec)
  moreover have "fst (handleFormSubmit ''flu'' initial_state) = None"
    using handleFormSubmit_cases[of "''flu''" initial_state] d h0 by simp
  moreover have "fst (handleFormSubmit '' '' second_only_state) = None"
    using handleFormSubmit_cases[of "'' ''" second_only_state] w by simp
  ultimately show ?thesis
    using f sp by (simp add: second_only_state_registry second_only_state_herbs
                     initial_state_count herbs_of_initial)
qed

section \<open>Suggestions\<close>

text \<open>
  Claim C9. Whatever the network does, the caller of \<open>fetchSuggestions\<close> receives a
  value, never an error: when the fetch or the JSON parse fails the value is the
  empty list and the error is written to the console; when the request succeeds the
  value is the parsed list.
\<close>

theorem fetchSuggestions_never_throws:
  "(\<exists>suggestions. fst (fetchSuggestions net endpoint query) = Inr suggestions)
   \<and> (net (endpoint @ ''?q='' @ encodeURIComponent query) = Inl e \<longrightarrow>
        fetchSuggestions net endpoint query = (Inr [], [e]))
   \<and> (net (endpoint @ ''?q='' @ encodeURIComponent query) = Inr suggestions \<longrightarrow>
        fetchSuggestions net endpoint query = (Inr suggestions, []))"
  by (auto simp: fetchSuggestions_def fetchSuggestions_try_def split: sum.splits)

theorem fetchSuggestions_never_throws_witness:
  "failing_network (''/api/herbs'' @ ''?q='' @ encodeURIComponent ''gin'') = Inl NetworkError
   \<and> fetchSuggestions failing_network ''/api/herbs'' ''gin'' = (Inr [], [NetworkError])"
  using fetchSuggestions_never_throws[of failing_network "''/api/herbs''" "''gin''" NetworkError]
  by (simp add: failing_network_def)

lemma fetchSuggestions_Inr: "\<exists>suggestions. fst (fetchSuggestions net endpoint query) = Inr suggestions"
  by (auto simp: fetchSuggestions_def split: sum.splits)

lemma showSuggestions_dropdown:
  "showSuggestionsWithKeyboard c suggestions query s = (None, s') \<Longrightarrow>
     dropdown s' c = suggestions \<and> prescriptions s' = prescriptions s"
  by (auto simp: showSuggestionsWithKeyboard_def hideSuggestions_def Let_def split: if_splits)

text \<open>
  The input handler filters with the herb list under the index \<open>i\<close> it holds. When it
  has rendered its dropdown (it did not raise), no suggestion in the dropdown has an
  English name that is in the list under \<open>i\<close>; with a query and an answer of the herbs
  endpoint, the dropdown holds exactly the suggestions of the answer whose names are
  not in that list, in the answer's order.
\<close>

lemma herbInput_filters_held_index:
  "(herbInput net i c inputValue s = (None, s') \<longrightarrow>
      (\<forall>x \<in> set (dropdown s' c). englishName_of x \<notin> set (herbs_of s' i)))
   \<and> (herbInput net i c inputValue s = (None, s')
       \<and> trim inputValue \<noteq> []
       \<and> net (''/api/herbs'' @ ''?q='' @ encodeURIComponent (trim inputValue)) = Inr suggestions \<longrightarrow>
      dropdown s' c = filter (\<lambda>x. englishName_of x \<notin> set (herbs_of s i)) suggestions
      \<and> herbs_of s' i = herbs_of s i)"
proof (intro conjI impI)
  assume a: "herbInput net i c inputValue s = (None, s')"
  show "\<forall>x \<in> set (dropdown s' c). englishName_of x \<notin> set (herbs_of s' i)"
  proof (cases "trim inputValue = []")
    case True
    with a show ?thesis by (auto simp: herbInput_def hideSuggestions_def Let_def)
  next
    case False
    obtain xs where xs: "fst (fetchSuggestions net ''/api/herbs'' (trim inputValue)) = Inr xs"
      using fetchSuggestions_Inr by blast
    let ?f = "filter (\<lambda>x. englishName_of x \<notin> set (herbs_of (s\<lparr>selectedIndex := - 1\<rparr>) i)) xs"
    from a False xs have
      "showSuggestionsWithKeyboard c ?f (trim inputValue)
         (s\<lparr>selectedIndex := - 1, activeDropdown := Some c\<rparr>) = (None, s')"
      by (simp add: herbInput_def Let_def)
    then have "dropdown s' c = ?f \<and> prescriptions s' = prescriptions s"
      using showSuggestions_dropdown by fastforce
    then show ?thesis by (auto simp: herbs_of_def)
  qed
next
  assume a: "herbInput net i c inputValue s = (None, s')
       \<and> trim inputValue \<noteq> []
       \<and> net (''/api/herbs'' @ ''?q='' @ encodeURIComponent (trim inputValue)) = Inr suggestions"
  then have xs: "fst (fetchSuggestions net ''/api/herbs'' (trim inputValue)) = Inr suggestions"
    by (simp add: fetchSuggestions_def fetchSuggestions_try_def)
  from a have a1: "herbInput net i c inputValue s = (None, s')" and a2: "trim inputValue \<noteq> []"
    by simp_all
  let ?f = "filter (\<lambda>x. englishName_of x \<notin> set (herbs_of (s\<lparr>selectedIndex := - 1\<rparr>) i)) suggestions"
  from a2 xs a1 have
    "showSuggestionsWithKeyboard c ?f (trim inputValue)
       (s\<lparr>selectedIndex := - 1, activeDropdown := Some c\<rparr>) = (None, s')"
    by (simp add: herbInput_def Let_def)
  then have r: "dropdown s' c = ?f \<and> prescriptions s' = prescriptions s"
    using showSuggestions_dropdown by fastforce
  then show "dropdown s' c = filter (\<lambda>x. englishName_of x \<notin> set (herbs_of s i)) suggestions"
    by (simp add: herbs_of_def)
  from r show "herbs_of s' i = herbs_of s i" by (simp add: herbs_of_def)
qed

section \<open>Listeners that hold the index of their registration\<close>


















section \<open>The Korean-name cache\<close>

text \<open>
  Claim C2, as the specification states it, fails: \<open>validateHerb\<close> and the selection
  callbacks write to the cache only under \<open>if (data.korean)\<close> and \<open>if (korean)\<close>, so a
  herb that validates with an empty Korean name leaves no entry.
\<close>

theorem validateHerb_empty_korean_not_cached:
  "fst (validateHerb herb_service ''Licorice'' initial_state)
     = Some \<lparr>herb_english = ''Licorice'', herb_korean = []\<rparr>
   \<and> herbKoreanCache (snd (validateHerb herb_service ''Licorice'' initial_state)) ''Licorice'' = None
   \<and> herbKoreanCache (herbSelected herb_service 1 ''Licorice'' 0 (Some []) initial_state) ''Licorice''
       = None"
  by (simp add: validate_Licorice herbSelected_def hideSuggestions_def truthy_def
        addHerbTagInline_new_given herbs_of_initial)
     (simp add: initial_state_def)

lemma addHerbTagInline_cache_given:
  "herbKoreanCache (addHerbTagInline svc i h c (Some k) s) = herbKoreanCache s"
  by (auto simp: addHerbTagInline_def updatePlaceholder_def Let_def)

text \<open>
  Claim C2, amended. A successful validation stores the Korean name under the
  canonical English name (\<open>data.english || data.name\<close>) when the Korean name is not
  empty and leaves the cache as it is when it is empty; a selection whose item
  carries a Korean name does the same under the selected name. The empty string is
  stored only by \<open>getKoreanName\<close>, when the name is not in the cache and the service
  answers; that is also what a selection without a Korean name attribute does for a
  herb that is not yet in the list.
\<close>

theorem cache_population:
  "(svc herbName = Some data \<and> valid data \<longrightarrow>
      herbKoreanCache (snd (validateHerb svc herbName s))
        = (if korean data \<noteq> []
           then (herbKoreanCache s)(js_or (english data) (name data) \<mapsto> korean data)
           else herbKoreanCache s))
   \<and> herbKoreanCache (herbSelected svc i v c (Some k) s)
        = (if k \<noteq> [] then (herbKoreanCache s)(v \<mapsto> k) else herbKoreanCache s)
   \<and> (herbKoreanCache s v = None \<and> svc v = Some data \<longrightarrow>
        getKoreanName svc v s
          = (korean data, s\<lparr>herbKoreanCache := (herbKoreanCache s)(v \<mapsto> korean data)\<rparr>))
   \<and> (herbKoreanCache s v = None \<and> svc v = Some data \<and> v \<notin> set (herbs_of s i) \<longrightarrow>
        herbKoreanCache (herbSelected svc i v c None s) = (herbKoreanCache s)(v \<mapsto> korean data))"
proof (intro conjI impI)
  assume "svc herbName = Some data \<and> valid data"
  then show "herbKoreanCache (snd (validateHerb svc herbName s))
        = (if korean data \<noteq> []
           then (herbKoreanCache s)(js_or (english data) (name data) \<mapsto> korean data)
           else herbKoreanCache s)"
    by (simp add: validateHerb_def truthy_def)
next
  show "herbKoreanCache (herbSelected svc i v c (Some k) s)
        = (if k \<noteq> [] then (herbKoreanCache s)(v \<mapsto> k) else herbKoreanCache s)"
    by (simp add: herbSelected_def hideSuggestions_def addHerbTagInline_cache_given truthy_def Let_def)
next
  assume "herbKoreanCache s v = None \<and> svc v = Some data"
  then show "getKoreanName svc v s
          = (korean data, s\<lparr>herbKoreanCache := (herbKoreanCache s)(v \<mapsto> korean data)\<rparr>)"
    by (simp add: getKoreanName_def js_or_def truthy_def)
next
  assume "herbKoreanCache s v = None \<and> svc v = Some data \<and> v \<notin> set (herbs_of s i)"
  then show "herbKoreanCache (herbSelected svc i v c None s) = (herbKoreanCache s)(v \<mapsto> korean data)"
    by (auto simp: herbSelected_def hideSuggestions_def addHerbTagInline_def getKoreanName_def
          js_or_def truthy_def herbs_of_def updatePlaceholder_def Let_def split: option.splits)
qed

lemma initial_cache: "herbKoreanCache initial_state = Map.empty"
  by (simp add: initial_state_def)

theorem cache_population_witness:
  "herb_service ''Ginseng'' = Some \<lparr>valid = True, english = ''Ginseng'', name = [], korean = ''Insam''\<rparr>
   \<and> herbKoreanCache (snd (validateHerb herb_service ''Ginseng'' initial_state)) ''Ginseng'' = Some ''Insam''
   \<and> herb_service ''Licorice'' = Some \<lparr>valid = True, english = ''Licorice'', name = [], korean = []\<rparr>
   \<and> herbKoreanCache (snd (validateHerb herb_service ''Licorice'' initial_state)) = Map.empty
   \<and> herbKoreanCache (herbSelected herb_service 1 ''Ginseng'' 0 (Some ''Insam'') initial_state) ''Ginseng''
       = Some ''Insam''
   \<and> herbKoreanCache initial_state ''Licorice'' = None
   \<and> ''Licorice'' \<notin> set (herbs_of initial_state 1)
   \<and> getKoreanName herb_service ''Licorice'' initial_state
       = ([], initial_state\<lparr>herbKoreanCache := [''Licorice'' \<mapsto> []]\<rparr>)
   \<and> herbKoreanCache (herbSelected herb_service 1 ''Licorice'' 0 None initial_state) ''Licorice''
       = Some []"
proof -
  have g: "herb_service ''Ginseng''
      = Some \<lparr>valid = True, english = ''Ginseng'', name = [], korean = ''Insam''\<rparr>"
    by (simp add: herb_service_def)
  have l: "herb_service ''Licorice''
      = Some \<lparr>valid = True, english = ''Licorice'', name = [], korean = []\<rparr>"
    by (simp add: herb_service_def)
  from cache_population[of herb_service "''Ginseng''"
          "\<lparr>valid = True, english = ''Ginseng'', name = [], korean = ''Insam''\<rparr>"
          initial_state 1 "''Ginseng''" 0 "''Insam''"]
       cache_population[of herb_service "''Licorice''"
          "\<lparr>valid = True, english = ''Licorice'', name = [], korean = []\<rparr>"
          initial_state 1 "''Licorice''" 0 "[]"]
       g l
  show ?thesis
    by (simp add: initial_cache herbs_of_initial js_or_def truthy_def del: One_nat_def)
qed

section \<open>Highlighting\<close>

lemma escapeHtml_units: "escapeHtml_units (units t) = units (escapeHtml t)"
proof (induction t)
  case Nil
  show ?case by (simp add: escapeHtml_units_def units_def escapeHtml_def)
next
  case (Cons c t)
  have "escapeUnit (of_char c) = map of_char (escapeChar c)"
  proof -
    obtain x :: nat where x: "c = char_of x" "x < 256"
      by (metis char_of_char nat_of_char_less_256)
    show ?thesis
      unfolding x(1) using x(2)
      by (auto simp: escapeUnit_def escapeChar_def units_def char_of_eq_iff take_bit_nat_eq_self)
  qed
  with Cons show ?case
    by (simp add: escapeHtml_units_def units_def escapeHtml_def)
qed

lemma pattern_atoms_escapeRegex: "pattern_atoms (escapeRegex q) = Some q"
  by (induction q) (auto simp: escapeRegex_def regex_special_def backslash_def units_def)

lemma group_literal_escapeRegex: "group_literal ([40] @ escapeRegex q @ [41]) = Some q"
  by (simp add: group_literal_def pattern_atoms_escapeRegex butlast_append)


text \<open>
  Where the two case comparisons agree. \<open>highlightMatch\<close> finds the matches with the
  canonical form of the regular expression and decides with \<open>toLowerCase\<close> which pieces
  to wrap. On a set \<open>U\<close> of code units over which two strings have the same lower case
  exactly when they have the same canonical code units, the result is the reading of
  the specification.
\<close>

lemma matches_at_occurs:
  assumes agree: "\<And>a b. set a \<subseteq> U \<Longrightarrow> set b \<subseteq> U \<Longrightarrow>
            (toLowerCase rt a = toLowerCase rt b) = (map (canonicalize rt) a = map (canonicalize rt) b)"
    and q: "set q \<subseteq> U" and r: "set rest \<subseteq> U"
  shows "matches_at rt q rest = occurs_at rt q rest"
proof -
  have t: "set (take (length q) rest) \<subseteq> U"
    using r set_take_subset by fastforce
  have e: "matches_at rt q rest = (toLowerCase rt (take (length q) rest) = toLowerCase rt q)"
    unfolding matches_at_def using agree[OF t q] by simp
  show ?thesis
  proof (cases "length q \<le> length rest")
    case True
    then show ?thesis using e by (simp add: occurs_at_def)
  next
    case False
    then have "length (map (canonicalize rt) (take (length q) rest)) \<noteq> length (map (canonicalize rt) q)"
      by simp
    then have "\<not> matches_at rt q rest" unfolding matches_at_def by metis
    then show ?thesis using False by (simp add: occurs_at_def)
  qed
qed

lemma escapeHtml_units_append:
  "escapeHtml_units (a @ b) = escapeHtml_units a @ escapeHtml_units b"
  by (simp add: escapeHtml_units_def)

lemma not_wrapped:
  assumes agree: "\<And>a b. set a \<subseteq> U \<Longrightarrow> set b \<subseteq> U \<Longrightarrow>
            (toLowerCase rt a = toLowerCase rt b) = (map (canonicalize rt) a = map (canonicalize rt) b)"
    and "q \<noteq> []" and "set q \<subseteq> U" and "set seg \<subseteq> U"
    and "seg = [] \<or> \<not> occurs_at rt q (seg @ rest)"
  shows "toLowerCase rt seg \<noteq> toLowerCase rt q"
proof
  assume e: "toLowerCase rt seg = toLowerCase rt q"
  then have "map (canonicalize rt) seg = map (canonicalize rt) q"
    using agree[OF assms(4) assms(3)] by simp
  then have l: "length seg = length q" by (rule map_eq_imp_length_eq)
  with assms(2) have "seg \<noteq> []" by auto
  moreover have "occurs_at rt q (seg @ rest)"
    using e l by (simp add: occurs_at_def)
  ultimately show False using assms(5) by simp
qed

lemma split_render:
  "(\<And>a b. set a \<subseteq> U \<Longrightarrow> set b \<subseteq> U \<Longrightarrow>
      (toLowerCase rt a = toLowerCase rt b) = (map (canonicalize rt) a = map (canonicalize rt) b)) \<Longrightarrow>
   q \<noteq> [] \<Longrightarrow> set q \<subseteq> U \<Longrightarrow> set seg \<subseteq> U \<Longrightarrow> set rest \<subseteq> U \<Longrightarrow>
   seg = [] \<or> \<not> occurs_at rt q (seg @ rest) \<Longrightarrow>
     concat (map (\<lambda>part. if toLowerCase rt part = toLowerCase rt q
                          then highlight_mark part else escapeHtml_units part)
               (regex_split rt q seg rest))
     = escapeHtml_units seg @ highlight_spec rt q rest"
proof (induction rt q seg rest rule: regex_split.induct)
  case (1 rt lit seg)
  have "toLowerCase rt seg \<noteq> toLowerCase rt lit"
    using not_wrapped[OF "1.prems"(1) "1.prems"(2) "1.prems"(3) "1.prems"(4), of "[]"] "1.prems"(6)
    by simp
  then show ?case by simp
next
  case (2 rt lit seg c cs)
  note agree = "2.prems"(1)
  have mo: "matches_at rt lit (c # cs) = occurs_at rt lit (c # cs)"
    using matches_at_occurs[OF agree "2.prems"(3) "2.prems"(5)] .
  show ?case
  proof (cases "occurs_at rt lit (c # cs)")
    case True
    have nw: "toLowerCase rt seg \<noteq> toLowerCase rt lit"
      using not_wrapped[OF agree "2.prems"(2) "2.prems"(3) "2.prems"(4) "2.prems"(6)] .
    have m: "toLowerCase rt (take (length lit) (c # cs)) = toLowerCase rt lit"
      using True by (simp add: occurs_at_def)
    have d: "set (drop (length lit) (c # cs)) \<subseteq> U"
      using "2.prems"(5) set_drop_subset by fastforce
    have c: "lit \<noteq> [] \<and> matches_at rt lit (c # cs)"
      using True mo "2.prems"(2) by simp
    have ih: "concat (map (\<lambda>part. if toLowerCase rt part = toLowerCase rt lit
                                   then highlight_mark part else escapeHtml_units part)
               (regex_split rt lit [] (drop (length lit) (c # cs))))
       = highlight_spec rt lit (drop (length lit) (c # cs))"
      using "2.IH"(1)[OF c agree "2.prems"(2) "2.prems"(3) _ d]
      by (simp add: escapeHtml_units_def)
    show ?thesis
      using True "2.prems"(2) nw m ih mo
      by (simp del: take_Suc_Cons drop_Suc_Cons)
  next
    case False
    have c: "\<not> (lit \<noteq> [] \<and> matches_at rt lit (c # cs))"
      using False mo by simp
    have inv: "seg @ [c] = [] \<or> \<not> occurs_at rt lit ((seg @ [c]) @ cs)"
      using False "2.prems"(6) by (cases seg) auto
    have u: "set (seg @ [c]) \<subseteq> U" "set cs \<subseteq> U"
      using "2.prems"(4) "2.prems"(5) by auto
    have ih: "concat (map (\<lambda>part. if toLowerCase rt part = toLowerCase rt lit
                                   then highlight_mark part else escapeHtml_units part)
               (regex_split rt lit (seg @ [c]) cs))
       = escapeHtml_units (seg @ [c]) @ highlight_spec rt lit cs"
      using "2.IH"(2)[OF c agree "2.prems"(2) "2.prems"(3) u inv] .
    show ?thesis
      using False ih mo by (simp add: escapeHtml_units_def)
  qed
qed

lemma highlightMatch_where_tables_agree:
  assumes "\<And>a b. set a \<subseteq> U \<Longrightarrow> set b \<subseteq> U \<Longrightarrow>
            (toLowerCase rt a = toLowerCase rt b) = (map (canonicalize rt) a = map (canonicalize rt) b)"
    and "query \<noteq> []" and "set query \<subseteq> U" and "set t \<subseteq> U"
  shows "highlightMatch rt t query = Some (highlight_spec rt query t)"
  using split_render[OF assms(1) assms(2) assms(3) _ assms(4), of "[]"]
        group_literal_escapeRegex[of query] assms(2)
  by (simp add: highlightMatch_def escapeHtml_units_def)

text \<open>The tables of \<open>unicode_sample\<close> agree on the code units below 256.\<close>

lemma sample_canonicalize_lower:
  "x < 256 \<Longrightarrow> sample_canonicalize (sample_lower x) = sample_canonicalize x"
  by (simp add: sample_canonicalize_def sample_lower_def)

lemma sample_lower_canonicalize:
  "x < 256 \<Longrightarrow> sample_lower x =
     (let n = sample_canonicalize x
      in if (65 \<le> n \<and> n \<le> 90) \<or> (192 \<le> n \<and> n \<le> 214) \<or> (216 \<le> n \<and> n \<le> 222)
         then n + 32
         else if n = 924 then 181
         else if n = 376 then 255
         else n)"
  by (auto simp: sample_canonicalize_def sample_lower_def Let_def)

lemma sample_unit_agree:
  assumes "a < 256" and "b < 256"
  shows "(sample_lower a = sample_lower b) = (sample_canonicalize a = sample_canonicalize b)"
proof
  assume "sample_canonicalize a = sample_canonicalize b"
  then show "sample_lower a = sample_lower b"
    by (simp add: sample_lower_canonicalize[OF assms(1)] sample_lower_canonicalize[OF assms(2)])
next
  assume "sample_lower a = sample_lower b"
  then have "sample_canonicalize (sample_lower a) = sample_canonicalize (sample_lower b)" by simp
  then show "sample_canonicalize a = sample_canonicalize b"
    by (simp only: sample_canonicalize_lower[OF assms(1)] sample_canonicalize_lower[OF assms(2)])
qed

lemma unicode_sample_agree:
  "set a \<subseteq> {..<256} \<Longrightarrow> set b \<subseteq> {..<256} \<Longrightarrow>
     (toLowerCase unicode_sample a = toLowerCase unicode_sample b)
     = (map (canonicalize unicode_sample) a = map (canonicalize unicode_sample) b)"
proof (induction a arbitrary: b)
  case Nil
  then show ?case by (simp add: unicode_sample_def)
next
  case (Cons x a)
  show ?case
  proof (cases b)
    case Nil
    then show ?thesis by (simp add: unicode_sample_def)
  next
    case (Cons y b')
    have "x < 256" "y < 256" "set a \<subseteq> {..<256}" "set b' \<subseteq> {..<256}"
      using Cons.prems Cons by auto
    then show ?thesis
      using Cons.IH[of b'] Cons sample_unit_agree[of x y]
      by (simp add: unicode_sample_def)
  qed
qed

lemma highlightMatch_below_256:
  assumes "query \<noteq> []" and "set query \<subseteq> {..<256}" and "set t \<subseteq> {..<256}"
  shows "highlightMatch unicode_sample t query = Some (highlight_spec unicode_sample query t)"
  using highlightMatch_where_tables_agree[of "{..<256}" unicode_sample, OF unicode_sample_agree assms]
  by simp

text \<open>The example of the specification, and a query with a special character.\<close>

lemma highlightMatch_example:
  "highlightMatch unicode_sample (units ''Ginseng Root'') (units ''gin'')
     = Some (units ''<mark class='' @ [34] @ units ''highlight'' @ [34]
               @ units ''>Gin</mark>seng Root'')"
  by code_simp

lemma highlightMatch_example_escaped:
  "highlightMatch unicode_sample (units ''A.B<axb>'') (units ''a.b'')
     = Some (units ''<mark class='' @ [34] @ units ''highlight'' @ [34]
               @ units ''>A.B</mark>&lt;axb&gt;'')"
  by code_simp

text \<open>
  Claim C7. The two case comparisons of \<open>highlightMatch\<close> disagree on code units that
  every runtime has. The final sigma U+03C2 and the sigma U+03C3 have the same upper
  case U+03A3, so the regular expression for the query U+03C3 matches the text U+03C2
  and \<open>split\<close> gives the pieces empty, U+03C2, empty; their lower cases differ, so the
  matched piece is not wrapped. The Kelvin sign U+212A is its own upper case while the
  upper case of the letter k (U+006B) is K (U+004B), so the regular expression for the
  query k does not match the text U+212A and \<open>split\<close> gives the text as one piece; its
  lower case is the letter k, so the piece that is no match is wrapped.
\<close>

theorem highlightMatch_case_comparisons_disagree:
  assumes "toLowerCase rt [] = []"
    and "toLowerCase rt [0x3C2] = [0x3C2]" and "toLowerCase rt [0x3C3] = [0x3C3]"
    and "canonicalize rt 0x3C2 = 0x3A3" and "canonicalize rt 0x3C3 = 0x3A3"
    and "toLowerCase rt [0x212A] = [0x6B]" and "toLowerCase rt [0x6B] = [0x6B]"
    and "canonicalize rt 0x212A = 0x212A" and "canonicalize rt 0x6B = 0x4B"
  shows "regex_split rt [0x3C3] [] [0x3C2] = [[], [0x3C2], []]
       \<and> highlightMatch rt [0x3C2] [0x3C3] = Some [0x3C2]
       \<and> regex_split rt [0x6B] [] [0x212A] = [[0x212A]]
       \<and> highlightMatch rt [0x212A] [0x6B] = Some (highlight_mark [0x212A])"
proof -
  have g: "group_literal ([40] @ escapeRegex [0x3C3] @ [41]) = Some [0x3C3]"
          "group_literal ([40] @ escapeRegex [0x6B] @ [41]) = Some [0x6B]"
    by (rule group_literal_escapeRegex)+
  have s1: "regex_split rt [0x3C3] [] [0x3C2] = [[], [0x3C2], []]"
    using assms by (simp add: matches_at_def)
  have s2: "regex_split rt [0x6B] [] [0x212A] = [[0x212A]]"
    using assms by (simp add: matches_at_def)
  have h1: "highlightMatch rt [0x3C2] [0x3C3] = Some [0x3C2]"
    unfolding highlightMatch_def using g(1) s1 assms
    by (simp add: escapeHtml_units_def escapeUnit_def)
  have h2: "highlightMatch rt [0x212A] [0x6B] = Some (highlight_mark [0x212A])"
    unfolding highlightMatch_def using g(2) s2 assms
    by simp
  show ?thesis using s1 s2 h1 h2 by simp
qed

theorem highlightMatch_case_comparisons_disagree_witness:
  "highlightMatch unicode_sample [0x3C2] [0x3C3] = Some [0x3C2]
   \<and> regex_split unicode_sample [0x3C3] [] [0x3C2] = [[], [0x3C2], []]
   \<and> highlightMatch unicode_sample [0x212A] [0x6B]
       = Some (units ''<mark class='' @ [34] @ units ''highlight'' @ [34] @ units ''>''
                 @ [0x212A] @ units ''</mark>'')
   \<and> regex_split unicode_sample [0x6B] [] [0x212A] = [[0x212A]]"
  using highlightMatch_case_comparisons_disagree[of unicode_sample]
  by (simp add: unicode_sample_def sample_lower_def sample_canonicalize_def
        highlight_mark_def escapeHtml_units_def escapeUnit_def units_def)

end
